theory Spec2Isabelle
  imports Main
begin

section \<open>Data model (models/Election.js, models/Candidate.js, models/Class.js, models/User.js)\<close>

text \<open>
  Documents are records, collections are lists in storage order, references between
  documents are object ids. An \<open>ObjectId\<close> prints as 24 hexadecimal digits, so as a
  property key of a plain JavaScript object it is never an array index and never a name
  of \<open>Object.prototype\<close>: keys of an object built from ids are enumerated in insertion
  order. Dates are milliseconds since the epoch. The nested objects \<open>qrCode\<close>,
  \<open>publicAccess\<close> and \<open>results\<close> of an election are flattened with the prefixes
  \<open>qr_\<close>, \<open>pa_\<close> and \<open>res_\<close>. A title is a JavaScript string, a list of UTF-16 code
  units, because the schema trims it; the other texts are only tested for emptiness and
  equality. In a request of the teacher's forms the empty text stands for a missing
  (falsy) field.
\<close>

datatype oid = ObjectId nat
datatype status = Pending | Active | Completed | Cancelled

record vote =
  v_student :: oid
  v_candidate :: oid
  v_timestamp :: int

record anonymousVote =
  av_rollNumber :: string
  av_candidate :: oid
  av_ipAddress :: string
  av_userAgent :: string
  av_timestamp :: int

record timeSlot =
  slot_startTime :: int
  slot_endTime :: int
  slot_isActive :: bool

type_synonym jsstring = "nat list"

record election =
  e_id :: oid
  title :: jsstring
  description :: string
  electionType :: string
  e_class :: oid
  startDate :: int
  endDate :: int
  candidates :: "oid list"
  qr_data :: "string option"
  qr_accessToken :: "string option"
  qr_isEnabled :: bool
  pa_allowAnonymousVoting :: bool
  pa_requireRollNumber :: bool
  pa_votingTimeSlots :: "timeSlot list"
  anonymousVotes :: "anonymousVote list"
  votes :: "vote list"
  status :: status
  createdBy :: oid
  res_published :: bool
  res_publishedAt :: "int option"
  res_winner :: "oid option"

section \<open>Dates and strings of the request layer\<close>

text \<open>\<open>new Date(s)\<close> is a time value or the invalid date, whose comparisons are all false.\<close>

datatype date = Date int | InvalidDate

fun date_lt :: "date \<Rightarrow> date \<Rightarrow> bool" where
  "date_lt (Date a) (Date b) = (a < b)"
| "date_lt _ _ = False"

fun date_le :: "date \<Rightarrow> date \<Rightarrow> bool" where
  "date_le (Date a) (Date b) = (a \<le> b)"
| "date_le _ _ = False"

text \<open>
  \<open>String.prototype.trim\<close> removes, at both ends, the code units of the white space and
  line terminators of ECMAScript: tab, line feed, vertical tab, form feed, carriage
  return, space, U+00A0, U+1680, U+2000 to U+200A, U+2028, U+2029, U+202F, U+205F, U+3000
  and U+FEFF.
\<close>

definition isSpace :: "nat \<Rightarrow> bool" where
  "isSpace c = (c \<in> set [0x09, 0x0A, 0x0B, 0x0C, 0x0D, 0x20, 0xA0, 0x1680, 0x2028, 0x2029,
                          0x202F, 0x205F, 0x3000, 0xFEFF] \<or> (0x2000 \<le> c \<and> c \<le> 0x200A))"

definition trim :: "jsstring \<Rightarrow> jsstring" where
  "trim s = rev (dropWhile isSpace (rev (dropWhile isSpace s)))"

text \<open>
  A value of a JSON or url-encoded request body, as far as the controllers tell values
  apart: no value, null, a boolean, a number (an integer below \<open>10^21\<close> in magnitude, printed
  in decimal), a text, an object whose \<open>_id\<close> is a text, and any other array or object.
  \<open>truthy\<close> is the test of \<open>if (v)\<close>, \<open>!v\<close> and \<open>v || w\<close>; \<open>castString\<close> is the cast of the
  schema type \<open>String\<close>, which fails on arrays and plain objects.
\<close>

datatype jsvalue =
  Undefined | Null | JBool bool | JNumber int | JString string | JIdObject string | JOther

fun truthy :: "jsvalue \<Rightarrow> bool" where
  "truthy Undefined = False"
| "truthy Null = False"
| "truthy (JBool b) = b"
| "truthy (JNumber n) = (n \<noteq> 0)"
| "truthy (JString s) = (s \<noteq> [])"
| "truthy (JIdObject s) = True"
| "truthy JOther = True"

fun digits :: "nat \<Rightarrow> string" where
  "digits n = (if n < 10 then [''0123456789'' ! n]
               else digits (n div 10) @ [''0123456789'' ! (n mod 10)])"

definition toString :: "int \<Rightarrow> string" where
  "toString i = (if i < 0 then CHR ''-'' # digits (nat (- i)) else digits (nat i))"

fun castString :: "jsvalue \<Rightarrow> string option" where
  "castString (JString s) = Some s"
| "castString (JNumber n) = Some (toString n)"
| "castString (JBool b) = Some (if b then ''true'' else ''false'')"
| "castString (JIdObject s) = (if s \<noteq> [] then Some s else None)"
| "castString _ = None"

text \<open>\<open>id.toString()\<close> of an object id: its twelve bytes as 24 lower-case hexadecimal digits.\<close>

fun hexDigits :: "nat \<Rightarrow> nat \<Rightarrow> string" where
  "hexDigits 0 n = []"
| "hexDigits (Suc k) n = hexDigits k (n div 16) @ [''0123456789abcdef'' ! (n mod 16)]"

fun oidToString :: "oid \<Rightarrow> string" where
  "oidToString (ObjectId n) = hexDigits 24 n"

text \<open>
  The cast of a submitted value to an object id belongs to the database driver. The
  controllers that compare a submitted id as text take it as the parameter \<open>cast\<close>
  (\<open>None\<close> is the driver's CastError), and what is proved of them holds for every cast. The
  other controllers use a submitted id only through the cast and are given the id.
  \<open>castObjectId\<close> is the cast used in the examples: a text of 24 hexadecimal digits, in
  either case, or an object with such an \<open>_id\<close>.
\<close>

definition hexTable :: "(char \<times> nat) list" where
  "hexTable =
     [(CHR ''0'', 0), (CHR ''1'', 1), (CHR ''2'', 2), (CHR ''3'', 3), (CHR ''4'', 4),
      (CHR ''5'', 5), (CHR ''6'', 6), (CHR ''7'', 7), (CHR ''8'', 8), (CHR ''9'', 9),
      (CHR ''a'', 10), (CHR ''b'', 11), (CHR ''c'', 12), (CHR ''d'', 13), (CHR ''e'', 14),
      (CHR ''f'', 15), (CHR ''A'', 10), (CHR ''B'', 11), (CHR ''C'', 12), (CHR ''D'', 13),
      (CHR ''E'', 14), (CHR ''F'', 15)]"

fun parseHex :: "string \<Rightarrow> nat \<Rightarrow> nat option" where
  "parseHex [] acc = Some acc"
| "parseHex (c # cs) acc =
     (case map_of hexTable c of None \<Rightarrow> None | Some v \<Rightarrow> parseHex cs (16 * acc + v))"

fun castObjectId :: "jsvalue \<Rightarrow> oid option" where
  "castObjectId (JString s) =
     (if length s = 24 then map_option ObjectId (parseHex s 0) else None)"
| "castObjectId (JIdObject s) =
     (if length s = 24 then map_option ObjectId (parseHex s 0) else None)"
| "castObjectId _ = None"

section \<open>The other collections and the database\<close>

record candidate =
  cand_id :: oid
  cand_student :: oid
  cand_election :: oid
  approved :: bool
  cand_active :: bool

record classDoc =
  c_id :: oid
  classTeacher :: "oid option"
  c_active :: bool

record user =
  u_id :: oid
  u_role :: string
  u_rollNumber :: string
  u_class :: "oid option"
  u_active :: bool

record db =
  Elections :: "election list"
  Candidates :: "candidate list"
  Classes :: "classDoc list"
  Users :: "user list"

datatype error =
    StudentNotFound | TypeError | CastError | ValidationError
  | ElectionNotFound | ElectionNotFoundOrNotActive | ElectionNotCurrentlyActive
  | AlreadyVoted | InvalidCandidate
  | MissingCandidate | InvalidOrExpiredLink | VotingNotAvailable
  | RollNumberRequired | RollNumberAlreadyVoted
  | AllFieldsRequired | NoPermission | StartDateNotFuture | EndDateNotAfterStart
  | OverlappingElection | CannotModifyCompleted
  | InvalidStatus | CandidacyLocked | CandidateNotFound | NotCompleted | Unauthorized

text \<open>\<open>findById\<close> and \<open>findOne\<close> return the first document that matches.\<close>

definition findById :: "oid \<Rightarrow> election list \<Rightarrow> election option" where
  "findById i es = find (\<lambda>e. e_id e = i) es"

text \<open>\<open>doc.save()\<close> of a loaded document rewrites the stored document with its id.\<close>

fun save :: "election \<Rightarrow> election list \<Rightarrow> election list" where
  "save e [] = []"
| "save e (x # xs) = (if e_id x = e_id e then e # xs else x # save e xs)"

text \<open>
  The validators of the election schema that a controller can violate with request
  data: \<open>title\<close> is trimmed and required, \<open>electionType\<close> is one of the enumeration.
  A save of a document that fails them throws, and nothing is stored.
\<close>

definition validates :: "election \<Rightarrow> bool" where
  "validates e \<longleftrightarrow> trim (title e) \<noteq> [] \<and> description e \<noteq> [] \<and>
     electionType e \<in> set [''CR'', ''BR'', ''Other'']"

section \<open>Methods and virtuals of the election (models/Election.js)\<close>

definition isActive :: "election \<Rightarrow> int \<Rightarrow> bool" where
  "isActive this now \<longleftrightarrow> startDate this \<le> now \<and> now \<le> endDate this \<and> status this = Active"

text \<open>
  \<open>hasVoted(studentId, rollNumber = null)\<close>. The stored roll number is a text and \<open>===\<close>
  compares without conversion, so only a text can be equal to it.
\<close>

definition hasVoted :: "election \<Rightarrow> oid option \<Rightarrow> jsvalue \<Rightarrow> bool" where
  "hasVoted this studentId rollNumber =
     (if (case studentId of
            Some s \<Rightarrow> list_ex (\<lambda>vote. v_student vote = s) (votes this)
          | None \<Rightarrow> False) then True
      else if truthy rollNumber
              \<and> list_ex (\<lambda>vote. JString (av_rollNumber vote) = rollNumber) (anonymousVotes this)
        then True
      else False)"

definition isVotingAllowed :: "election \<Rightarrow> int \<Rightarrow> bool" where
  "isVotingAllowed this now =
     (if \<not> isActive this now then False
      else if \<not> pa_allowAnonymousVoting this then False
      else if length (pa_votingTimeSlots this) > 0
        then list_ex (\<lambda>slot. slot_isActive slot \<and> now \<ge> slot_startTime slot
                               \<and> now \<le> slot_endTime slot) (pa_votingTimeSlots this)
      else True)"

text \<open>\<open>generateQRToken\<close>: the 32 random bytes, hex-encoded, are the parameter \<open>random\<close>.\<close>

definition generateQRToken :: "election \<Rightarrow> string \<Rightarrow> election \<times> string" where
  "generateQRToken this random = (this\<lparr>qr_accessToken := Some random\<rparr>, random)"

text \<open>
  \<open>calculateResults\<close>. The object \<open>voteCount\<close> is an association list in insertion order:
  \<open>increment\<close> is the statement \<open>voteCount[candidateId] = (voteCount[candidateId] || 0) + 1\<close>,
  \<open>countVotes\<close> the \<open>forEach\<close> over the authenticated ledger, \<open>pick\<close> the body of the
  \<open>forEach\<close> over \<open>Object.entries(voteCount)\<close> with the pair \<open>(maxVotes, winnerId)\<close> as its
  state, starting from \<open>(0, null)\<close>. The method returns the document as it leaves it and
  the result object; every vote of a ledger carries its candidate.
\<close>

fun increment :: "(oid \<times> nat) list \<Rightarrow> oid \<Rightarrow> (oid \<times> nat) list" where
  "increment [] c = [(c, 1)]"
| "increment ((k, n) # kvs) c =
     (if k = c then (k, n + 1) # kvs else (k, n) # increment kvs c)"

definition countVotes :: "vote list \<Rightarrow> (oid \<times> nat) list" where
  "countVotes vs = foldl (\<lambda>voteCount vote. increment voteCount (v_candidate vote)) [] vs"

fun pick :: "nat \<times> oid option \<Rightarrow> oid \<times> nat \<Rightarrow> nat \<times> oid option" where
  "pick (maxVotes, winnerId) (candidateId, n) =
     (if n > maxVotes then (n, Some candidateId) else (maxVotes, winnerId))"

definition findWinner :: "(oid \<times> nat) list \<Rightarrow> nat \<times> oid option" where
  "findWinner voteCount = foldl pick (0, None) voteCount"

record calcResult =
  totalVotes :: nat
  voteCounts :: "(oid \<times> nat) list"
  winnerId :: "oid option"
  maxVotes :: nat

definition calculateResults :: "election \<Rightarrow> int \<Rightarrow> election \<times> calcResult" where
  "calculateResults this now =
     (let voteCount = countVotes (votes this);
          (maxV, winner) = findWinner voteCount;
          this' = (case winner of
                     None \<Rightarrow> this
                   | Some w \<Rightarrow> this\<lparr>res_winner := Some w, res_published := True,
                                     res_publishedAt := Some now, status := Completed\<rparr>)
      in (this', \<lparr>totalVotes = length (votes this), voteCounts = voteCount,
                  winnerId = winner, maxVotes = maxV\<rparr>))"

section \<open>Student controller: castVote\<close>

text \<open>
  Every request is modelled with one reading \<open>now\<close> of the clock, and requests are served
  one after another. A request that is refused (a redirect with a flash message, an error
  status, or an exception caught by \<open>asyncHandler\<close>) returns the error and leaves the
  database as it was. An accepted request returns the database after its writes; what a
  handler does after its last write (the entry in the audit log, which can itself fail,
  the flash message, the e-mails, the response) is not part of the model. The role checks of the routes (\<open>isStudent\<close>, \<open>isTeacher\<close>, \<open>isAdmin\<close>) come
  before the controllers and are not modelled either.

  \<open>castVote\<close>: \<open>populate('class')\<close> gives the class document or null, and reading
  \<open>student.class._id\<close> of null throws.
\<close>

definition populateClass :: "db \<Rightarrow> user \<Rightarrow> classDoc option" where
  "populateClass d u =
     (case u_class u of None \<Rightarrow> None | Some c \<Rightarrow> find (\<lambda>k. c_id k = c) (Classes d))"

definition castVote :: "db \<Rightarrow> oid \<Rightarrow> oid \<Rightarrow> oid \<Rightarrow> int \<Rightarrow> error + db" where
  "castVote d studentId i candidateId now =
     (case find (\<lambda>u. u_id u = studentId) (Users d) of
        None \<Rightarrow> Inl StudentNotFound
      | Some student \<Rightarrow>
     (case populateClass d student of
        None \<Rightarrow> Inl TypeError
      | Some studentClass \<Rightarrow>
     (case find (\<lambda>e. e_id e = i \<and> e_class e = c_id studentClass \<and> status e = Active)
                (Elections d) of
        None \<Rightarrow> Inl ElectionNotFoundOrNotActive
      | Some election \<Rightarrow>
          if now < startDate election \<or> now > endDate election
            then Inl ElectionNotCurrentlyActive
          else if hasVoted election (Some studentId) Null then Inl AlreadyVoted
          else
     (case find (\<lambda>c. cand_id c = candidateId \<and> cand_election c = i \<and> approved c
                       \<and> cand_active c) (Candidates d) of
        None \<Rightarrow> Inl InvalidCandidate
      | Some c \<Rightarrow>
          Inr (d\<lparr>Elections := save
                 (election\<lparr>votes := votes election @
                    [\<lparr>v_student = studentId, v_candidate = candidateId,
                      v_timestamp = now\<rparr>]\<rparr>)
                 (Elections d)\<rparr>)))))"

section \<open>Public voting controller: submitPublicVote, toggleQRAccess\<close>

text \<open>
  \<open>submitPublicVote\<close> reads \<open>candidateId\<close> and \<open>rollNumber\<close> from the body as they come.
  \<open>populate('candidates')\<close> replaces the references of the election by the candidate
  documents that exist, and the membership test compares the text of their ids with the
  submitted value by \<open>===\<close>. The document that is pushed is cast by the schema: the
  candidate by the driver, the roll number to a text, and a roll number that does not
  cast fails the \<open>save\<close>. The identifier of a vote without roll number is the text
  \<open>anonymous_\<close> followed by the clock reading in decimal.
\<close>

definition populateCandidates :: "db \<Rightarrow> election \<Rightarrow> candidate list" where
  "populateCandidates d e =
     List.map_filter (\<lambda>c. find (\<lambda>k. cand_id k = c) (Candidates d)) (candidates e)"

definition submitPublicVote ::
  "(jsvalue \<Rightarrow> oid option) \<Rightarrow> db \<Rightarrow> string \<Rightarrow> jsvalue \<Rightarrow> jsvalue \<Rightarrow> string \<Rightarrow> string \<Rightarrow> int
     \<Rightarrow> error + db" where
  "submitPublicVote cast d token candidateId rollNumber clientIP userAgent now =
     (if \<not> truthy candidateId then Inl MissingCandidate
      else
     (case find (\<lambda>e. qr_accessToken e = Some token \<and> qr_isEnabled e) (Elections d) of
        None \<Rightarrow> Inl InvalidOrExpiredLink
      | Some election \<Rightarrow>
          if \<not> isVotingAllowed election now then Inl VotingNotAvailable
          else if pa_requireRollNumber election \<and> \<not> truthy rollNumber
            then Inl RollNumberRequired
          else if truthy rollNumber \<and> hasVoted election None rollNumber
            then Inl RollNumberAlreadyVoted
          else
     (case cast candidateId of
        None \<Rightarrow> Inl CastError
      | Some cid \<Rightarrow>
     (case find (\<lambda>c. cand_id c = cid) (Candidates d) of
        None \<Rightarrow> Inl InvalidCandidate
      | Some c \<Rightarrow>
          if \<not> list_ex (\<lambda>c. JString (oidToString (cand_id c)) = candidateId)
                        (populateCandidates d election)
            then Inl InvalidCandidate
          else
     (case castString (if truthy rollNumber then rollNumber
                       else JString (''anonymous_'' @ toString now)) of
        None \<Rightarrow> Inl ValidationError
      | Some roll \<Rightarrow>
          Inr (d\<lparr>Elections := save
                 (election\<lparr>anonymousVotes := anonymousVotes election @
                    [\<lparr>av_rollNumber = roll, av_candidate = cid, av_ipAddress = clientIP,
                      av_userAgent = userAgent, av_timestamp = now\<rparr>]\<rparr>)
                 (Elections d)\<rparr>))))))"

text \<open>The session user is given by its role; \<open>None\<close> is a request without a session.\<close>

definition toggleQRAccess :: "db \<Rightarrow> string option \<Rightarrow> oid \<Rightarrow> error + db" where
  "toggleQRAccess d sessionRole electionId =
     (if (case sessionRole of None \<Rightarrow> True
          | Some r \<Rightarrow> r \<notin> set [''teacher'', ''admin'']) then Inl Unauthorized
      else
     (case findById electionId (Elections d) of
        None \<Rightarrow> Inl ElectionNotFound
      | Some election \<Rightarrow>
          Inr (d\<lparr>Elections := save (election\<lparr>qr_isEnabled := \<not> qr_isEnabled election\<rparr>)
                                    (Elections d)\<rparr>)))"

section \<open>Teacher controller: createElection, updateElection, removeCandidate, publishResults\<close>

record createRequest =
  cr_title :: jsstring
  cr_description :: string
  cr_electionType :: string
  cr_classId :: "oid option"
  cr_startDate :: "date option"
  cr_endDate :: "date option"

text \<open>
  The date fields of a request hold what \<open>new Date\<close> makes of the submitted text;
  \<open>None\<close> is a missing field.
\<close>

text \<open>
  The \<open>$or\<close> of the overlap query of \<open>createElection\<close>, on one stored election, for the
  new window from \<open>start\<close> to \<open>end'\<close>.
\<close>

definition overlapQuery :: "int \<Rightarrow> int \<Rightarrow> election \<Rightarrow> bool" where
  "overlapQuery start end' e \<longleftrightarrow>
     (startDate e \<le> end' \<and> startDate e \<ge> start) \<or>
     (endDate e \<le> end' \<and> endDate e \<ge> start) \<or>
     (startDate e \<le> start \<and> endDate e \<ge> end')"

text \<open>
  The document \<open>new Election({...})\<close> with the defaults of the schema; \<open>newId\<close> is the id
  that the driver generates. A title is trimmed when it is set.
\<close>

definition newElection :: "oid \<Rightarrow> createRequest \<Rightarrow> oid \<Rightarrow> int \<Rightarrow> int \<Rightarrow> oid \<Rightarrow> election" where
  "newElection newId req classId start end' teacherId =
     \<lparr>e_id = newId, title = trim (cr_title req), description = cr_description req,
      electionType = cr_electionType req, e_class = classId,
      startDate = start, endDate = end', candidates = [],
      qr_data = None, qr_accessToken = None, qr_isEnabled = True,
      pa_allowAnonymousVoting = True, pa_requireRollNumber = True, pa_votingTimeSlots = [],
      anonymousVotes = [], votes = [], status = Pending, createdBy = teacherId,
      res_published = False, res_publishedAt = None, res_winner = None\<rparr>"

definition createElection :: "db \<Rightarrow> oid \<Rightarrow> createRequest \<Rightarrow> int \<Rightarrow> oid \<Rightarrow> error + db" where
  "createElection d teacherId req now newId =
     (case (cr_classId req, cr_startDate req, cr_endDate req) of
        (Some classId, Some start, Some end') \<Rightarrow>
          if cr_title req = [] \<or> cr_description req = [] \<or> cr_electionType req = []
            then Inl AllFieldsRequired
          else
     (case find (\<lambda>c. c_id c = classId \<and> classTeacher c = Some teacherId \<and> c_active c)
                (Classes d) of
        None \<Rightarrow> Inl NoPermission
      | Some classExists \<Rightarrow>
          if date_lt start (Date now) then Inl StartDateNotFuture
          else if date_le end' start then Inl EndDateNotAfterStart
          else
     (case (start, end') of
        (Date s, Date e) \<Rightarrow>
     (case find (\<lambda>x. e_class x = classId \<and> status x \<in> set [Active, Pending]
                       \<and> overlapQuery s e x) (Elections d) of
        Some overlappingElections \<Rightarrow> Inl OverlappingElection
      | None \<Rightarrow>
          if validates (newElection newId req classId s e teacherId)
            then Inr (d\<lparr>Elections := Elections d @
                          [newElection newId req classId s e teacherId]\<rparr>)
          else Inl ValidationError)
      | _ \<Rightarrow> Inl CastError))
      | _ \<Rightarrow> Inl AllFieldsRequired)"

definition hasPermission :: "db \<Rightarrow> election \<Rightarrow> oid \<Rightarrow> bool" where
  "hasPermission d election teacherId \<longleftrightarrow>
     createdBy election = teacherId \<or>
     list_ex (\<lambda>c. c_id c = e_class election \<and> classTeacher c = Some teacherId) (Classes d)"

record updateRequest =
  ur_title :: jsstring
  ur_description :: string
  ur_startDate :: "date option"
  ur_endDate :: "date option"
  ur_status :: string

text \<open>
  \<open>updateElection\<close>: \<open>updateStart\<close> and \<open>updateEnd\<close> are the two blocks that set the dates
  of a pending election, \<open>updateStatus\<close> the block "update status if provided and valid
  transition". The changes are stored by the one \<open>save\<close> at the end.
\<close>

definition updateStart :: "election \<Rightarrow> date option \<Rightarrow> int \<Rightarrow> error + election" where
  "updateStart election startDate' now =
     (case startDate' of
        None \<Rightarrow> Inr election
      | Some newStartDate \<Rightarrow>
          (case newStartDate of
             Date t \<Rightarrow> if t > now then Inr (election\<lparr>startDate := t\<rparr>)
                        else Inl StartDateNotFuture
           | InvalidDate \<Rightarrow> Inl StartDateNotFuture))"

definition updateEnd :: "election \<Rightarrow> date option \<Rightarrow> error + election" where
  "updateEnd election endDate' =
     (case endDate' of
        None \<Rightarrow> Inr election
      | Some newEndDate \<Rightarrow>
          (case newEndDate of
             Date t \<Rightarrow> if t > startDate election then Inr (election\<lparr>endDate := t\<rparr>)
                        else Inl EndDateNotAfterStart
           | InvalidDate \<Rightarrow> Inl EndDateNotAfterStart))"

definition updateDates :: "election \<Rightarrow> updateRequest \<Rightarrow> int \<Rightarrow> error + election" where
  "updateDates election req now =
     (if status election = Pending
      then (case updateStart election (ur_startDate req) now of
              Inl err \<Rightarrow> Inl err
            | Inr election' \<Rightarrow> updateEnd election' (ur_endDate req))
      else Inr election)"

definition updateStatus :: "election \<Rightarrow> string \<Rightarrow> int \<Rightarrow> election" where
  "updateStatus election status' now =
     (if status' \<noteq> [] then
        (if status' = ''completed'' \<and> status election = Active
           then fst (calculateResults election now)
         else if status' = ''cancelled'' \<and> status election \<noteq> Completed
           then election\<lparr>status := Cancelled\<rparr>
         else if status' = ''active'' \<and> status election = Pending
           then election\<lparr>status := Active\<rparr>
         else election)
      else election)"

definition updateElection :: "db \<Rightarrow> oid \<Rightarrow> oid \<Rightarrow> updateRequest \<Rightarrow> int \<Rightarrow> error + db" where
  "updateElection d teacherId i req now =
     (case findById i (Elections d) of
        None \<Rightarrow> Inl ElectionNotFound
      | Some election \<Rightarrow>
          if \<not> hasPermission d election teacherId then Inl NoPermission
          else if status election = Completed \<and> ur_status req \<noteq> ''completed''
            then Inl CannotModifyCompleted
          else
            (let election1 = (if ur_title req \<noteq> [] then election\<lparr>title := trim (ur_title req)\<rparr>
                              else election);
                 election2 = (if ur_description req \<noteq> []
                              then election1\<lparr>description := ur_description req\<rparr>
                              else election1)
             in case updateDates election2 req now of
                  Inl err \<Rightarrow> Inl err
                | Inr election3 \<Rightarrow>
                    (let election4 = updateStatus election3 (ur_status req) now
                     in if validates election4
                        then Inr (d\<lparr>Elections := save election4 (Elections d)\<rparr>)
                        else Inl ValidationError)))"

text \<open>
  \<open>removeCandidate\<close>: \<open>candidateId\<close> is the text of the URL. The candidate is looked up
  through the cast of that text, the references of the election are filtered by comparing
  their printed ids with the text itself, and \<open>candidate.deleteOne()\<close> removes the document
  that was found.
\<close>

definition removeCandidate ::
  "(jsvalue \<Rightarrow> oid option) \<Rightarrow> db \<Rightarrow> oid \<Rightarrow> oid \<Rightarrow> string \<Rightarrow> error + db" where
  "removeCandidate cast d teacherId i candidateId =
     (case findById i (Elections d) of
        None \<Rightarrow> Inl ElectionNotFound
      | Some election \<Rightarrow>
          if \<not> hasPermission d election teacherId then Inl NoPermission
          else if status election = Active \<or> status election = Completed
            then Inl CandidacyLocked
          else
     (case cast (JString candidateId) of
        None \<Rightarrow> Inl CastError
      | Some cid \<Rightarrow>
     (case find (\<lambda>c. cand_id c = cid \<and> cand_election c = i) (Candidates d) of
        None \<Rightarrow> Inl CandidateNotFound
      | Some c \<Rightarrow>
          Inr (d\<lparr>Elections := save
                   (election\<lparr>candidates :=
                      filter (\<lambda>c. oidToString c \<noteq> candidateId) (candidates election)\<rparr>)
                   (Elections d),
                 Candidates := remove1 c (Candidates d)\<rparr>))))"

definition publishResults :: "db \<Rightarrow> oid \<Rightarrow> oid \<Rightarrow> int \<Rightarrow> error + db" where
  "publishResults d teacherId i now =
     (case findById i (Elections d) of
        None \<Rightarrow> Inl ElectionNotFound
      | Some election \<Rightarrow>
          if \<not> hasPermission d election teacherId then Inl NoPermission
          else if status election \<noteq> Completed
                  \<and> \<not> (status election = Active \<and> endDate election \<le> now)
            then Inl NotCompleted
          else
            (let election1 = (if status election \<noteq> Completed
                              then election\<lparr>status := Completed\<rparr> else election);
                 election2 = fst (calculateResults election1 now)
             in Inr (d\<lparr>Elections := save
                        (election2\<lparr>res_published := True, res_publishedAt := Some now\<rparr>)
                        (Elections d)\<rparr>)))"

section \<open>Admin controller: updateElectionStatus\<close>

text \<open>
  \<open>parseStatus\<close> is the membership test of the four status names, returning the status
  that is then assigned.
\<close>

definition parseStatus :: "string \<Rightarrow> status option" where
  "parseStatus s =
     (if s = ''pending'' then Some Pending
      else if s = ''active'' then Some Active
      else if s = ''completed'' then Some Completed
      else if s = ''cancelled'' then Some Cancelled
      else None)"

definition updateElectionStatus :: "db \<Rightarrow> oid \<Rightarrow> string \<Rightarrow> int \<Rightarrow> error + db" where
  "updateElectionStatus d i status' now =
     (case parseStatus status' of
        None \<Rightarrow> Inl InvalidStatus
      | Some st \<Rightarrow>
     (case findById i (Elections d) of
        None \<Rightarrow> Inl ElectionNotFound
      | Some election \<Rightarrow>
          (let election1 = election\<lparr>status := st\<rparr>;
               election2 = (if status' = ''completed''
                            then fst (calculateResults election1 now) else election1)
           in Inr (d\<lparr>Elections := save election2 (Elections d)\<rparr>))))"

section \<open>Sequences of vote submissions\<close>

datatype request =
    CastVote oid oid oid int
  | SubmitPublicVote string jsvalue jsvalue string string int

fun handle :: "(jsvalue \<Rightarrow> oid option) \<Rightarrow> db \<Rightarrow> request \<Rightarrow> error + db" where
  "handle cast d (CastVote studentId i candidateId now) =
     castVote d studentId i candidateId now"
| "handle cast d (SubmitPublicVote token candidateId rollNumber clientIP userAgent now) =
     submitPublicVote cast d token candidateId rollNumber clientIP userAgent now"

text \<open>The database after a request: a refused request leaves it as it was.\<close>

definition outcome :: "db \<Rightarrow> error + db \<Rightarrow> db" where
  "outcome d r = (case r of Inl err \<Rightarrow> d | Inr d' \<Rightarrow> d')"

definition serve :: "(jsvalue \<Rightarrow> oid option) \<Rightarrow> db \<Rightarrow> request \<Rightarrow> db" where
  "serve cast d r = outcome d (handle cast d r)"

definition serveAll :: "(jsvalue \<Rightarrow> oid option) \<Rightarrow> db \<Rightarrow> request list \<Rightarrow> db" where
  "serveAll cast d rs = foldl (serve cast) d rs"

section \<open>A small college: one teacher, two classes, two students, one election\<close>

definition classOne :: classDoc where
  "classOne = \<lparr>c_id = ObjectId 1, classTeacher = Some (ObjectId 10), c_active = True\<rparr>"

definition classTwo :: classDoc where
  "classTwo = \<lparr>c_id = ObjectId 2, classTeacher = Some (ObjectId 10), c_active = True\<rparr>"

definition alice :: user where
  "alice = \<lparr>u_id = ObjectId 20, u_role = ''student'', u_rollNumber = ''R1'',
            u_class = Some (ObjectId 1), u_active = True\<rparr>"

definition bob :: user where
  "bob = \<lparr>u_id = ObjectId 21, u_role = ''student'', u_rollNumber = ''R2'',
          u_class = Some (ObjectId 1), u_active = True\<rparr>"

definition candidateA :: candidate where
  "candidateA = \<lparr>cand_id = ObjectId 30, cand_student = ObjectId 20,
                 cand_election = ObjectId 40, approved = True, cand_active = True\<rparr>"

definition candidateB :: candidate where
  "candidateB = \<lparr>cand_id = ObjectId 31, cand_student = ObjectId 21,
                 cand_election = ObjectId 40, approved = True, cand_active = True\<rparr>"

definition election40 :: election where
  "election40 =
     \<lparr>e_id = ObjectId 40, title = [0x43, 0x52], description = ''Class representative'',
      electionType = ''CR'', e_class = ObjectId 1, startDate = 100, endDate = 200,
      candidates = [ObjectId 30, ObjectId 31],
      qr_data = None, qr_accessToken = Some ''c0ffee'', qr_isEnabled = True,
      pa_allowAnonymousVoting = True, pa_requireRollNumber = True, pa_votingTimeSlots = [],
      anonymousVotes = [], votes = [], status = Active, createdBy = ObjectId 10,
      res_published = False, res_publishedAt = None, res_winner = None\<rparr>"

definition college :: db where
  "college = \<lparr>Elections = [election40], Candidates = [candidateA, candidateB],
              Classes = [classOne, classTwo], Users = [alice, bob]\<rparr>"

definition ballot :: "nat \<Rightarrow> nat \<Rightarrow> vote" where
  "ballot s c = \<lparr>v_student = ObjectId s, v_candidate = ObjectId c, v_timestamp = 150\<rparr>"

text \<open>Eight authenticated votes: five for candidate 30, three for candidate 31.\<close>

definition countedElection :: election where
  "countedElection = election40\<lparr>votes :=
     [ballot 20 30, ballot 21 31, ballot 22 30, ballot 23 30,
      ballot 24 31, ballot 25 30, ballot 26 31, ballot 27 30]\<rparr>"

definition withElection :: "election \<Rightarrow> db" where
  "withElection e = college\<lparr>Elections := [e]\<rparr>"

definition noRequest :: updateRequest where
  "noRequest = \<lparr>ur_title = [], ur_description = [], ur_startDate = None,
                ur_endDate = None, ur_status = []\<rparr>"

definition createFor :: "nat \<Rightarrow> int \<Rightarrow> int \<Rightarrow> createRequest" where
  "createFor c s e = \<lparr>cr_title = [0x42, 0x52], cr_description = ''Branch representative'',
     cr_electionType = ''BR'', cr_classId = Some (ObjectId c),
     cr_startDate = Some (Date s), cr_endDate = Some (Date e)\<rparr>"

definition rollVote :: "string \<Rightarrow> nat \<Rightarrow> anonymousVote" where
  "rollVote r c = \<lparr>av_rollNumber = r, av_candidate = ObjectId c, av_ipAddress = ''10.0.0.7'',
                   av_userAgent = ''browser'', av_timestamp = 150\<rparr>"

text \<open>The text of an id, as a form or a link submits it.\<close>

definition idText :: "nat \<Rightarrow> jsvalue" where
  "idText n = JString (oidToString (ObjectId n))"

definition fourSubmissions :: "request list" where
  "fourSubmissions =
     [CastVote (ObjectId 20) (ObjectId 40) (ObjectId 30) 150,
      SubmitPublicVote ''c0ffee'' (idText 30) (JString ''R1'') ''10.0.0.7'' ''browser'' 150,
      CastVote (ObjectId 20) (ObjectId 40) (ObjectId 31) 160,
      SubmitPublicVote ''c0ffee'' (idText 31) (JString ''R1'') ''10.0.0.7'' ''browser'' 150]"

text \<open>Two submissions of a JSON body whose roll number is the number 123.\<close>

definition twoNumberSubmissions :: "request list" where
  "twoNumberSubmissions =
     [SubmitPublicVote ''c0ffee'' (idText 30) (JNumber 123) ''10.0.0.7'' ''browser'' 150,
      SubmitPublicVote ''c0ffee'' (idText 30) (JNumber 123) ''10.0.0.7'' ''browser'' 150]"

text \<open>
  The election that \<open>createElection\<close> stores for class 1 with the window 100 to 200, after
  \<open>updateElection\<close> has moved its start to 300 and left its end alone.
\<close>

definition movedElection :: election where
  "movedElection =
     (newElection (ObjectId 41) (createFor 1 100 200) (ObjectId 1) 100 200 (ObjectId 10))
       \<lparr>startDate := 300\<rparr>"

section \<open>Predicates used in the proofs\<close>

definition tally_ok :: "(oid \<times> nat) list \<Rightarrow> oid list \<Rightarrow> bool" where
  "tally_ok kvs cs \<longleftrightarrow> distinct (map fst kvs) \<and> map fst kvs = rev (remdups (rev cs)) \<and>
     (\<forall>c. map_of kvs c = (if c \<in> set cs then Some (count_list cs c) else None))"

definition ledgers_ok :: "election \<Rightarrow> bool" where
  "ledgers_ok e \<longleftrightarrow> distinct (map v_student (votes e)) \<and>
     (pa_requireRollNumber e \<longrightarrow> distinct (map av_rollNumber (anonymousVotes e)))"

text \<open>A request whose roll number, if any, is a text.\<close>

fun textRoll :: "request \<Rightarrow> bool" where
  "textRoll (CastVote studentId i candidateId now) = True"
| "textRoll (SubmitPublicVote token candidateId (JString r) clientIP userAgent now) = True"
| "textRoll (SubmitPublicVote token candidateId rollNumber clientIP userAgent now) =
     (\<not> truthy rollNumber)"

definition terminal :: "status \<Rightarrow> bool" where
  "terminal st \<longleftrightarrow> st = Completed \<or> st = Cancelled"

section \<open>Auxiliary lemmas\<close>

lemma increment_keys:
  "map fst (increment kvs c) = (if c \<in> fst ` set kvs then map fst kvs else map fst kvs @ [c])"
  by (induction kvs c rule: increment.induct) auto

lemma increment_map_of:
  "distinct (map fst kvs) \<Longrightarrow> map_of (increment kvs c) k =
     (if k = c then Some (case map_of kvs c of None \<Rightarrow> 1 | Some n \<Rightarrow> n + 1) else map_of kvs k)"
  by (induction kvs c rule: increment.induct) (auto simp: image_iff)

lemma increment_distinct: "distinct (map fst kvs) \<Longrightarrow> distinct (map fst (increment kvs c))"
  by (simp add: increment_keys)

lemma tally_step:
  assumes "tally_ok kvs cs"
  shows "tally_ok (increment kvs c) (cs @ [c])"
proof -
  from assms have d: "distinct (map fst kvs)"
    and k: "map fst kvs = rev (remdups (rev cs))"
    and m: "\<And>x. map_of kvs x = (if x \<in> set cs then Some (count_list cs x) else None)"
    by (simp_all add: tally_ok_def)
  from k have "set (map fst kvs) = set cs" by simp
  then have s: "fst ` set kvs = set cs" by simp
  have 1: "distinct (map fst (increment kvs c))" using d by (rule increment_distinct)
  have 2: "map fst (increment kvs c) = rev (remdups (rev (cs @ [c])))"
    by (simp add: increment_keys s k)
  have 3: "map_of (increment kvs c) x =
      (if x \<in> set (cs @ [c]) then Some (count_list (cs @ [c]) x) else None)" for x
    by (simp add: increment_map_of[OF d] m)
  show ?thesis unfolding tally_ok_def using 1 2 3 by blast
qed

lemma foldl_tally:
  "tally_ok kvs cs \<Longrightarrow>
   tally_ok (foldl (\<lambda>voteCount vote. increment voteCount (v_candidate vote)) kvs vs) (cs @ map v_candidate vs)"
proof (induction vs arbitrary: kvs cs)
  case Nil then show ?case by simp
next
  case (Cons v vs)
  from tally_step[OF Cons.prems, of "v_candidate v"] Cons.IH[of "increment kvs (v_candidate v)" "cs @ [v_candidate v]"]
  show ?case by simp
qed

lemma countVotes_tally: "tally_ok (countVotes vs) (map v_candidate vs)"
  using foldl_tally[of "[]" "[]" vs] by (simp add: countVotes_def tally_ok_def)

lemma foldl_pick:
  "foldl pick (m, w) kvs = (m', w') \<Longrightarrow>
     m \<le> m' \<and> (\<forall>(k, n) \<in> set kvs. n \<le> m') \<and>
     ((m', w') = (m, w) \<or>
      (\<exists>pre k post. kvs = pre @ (k, m') # post \<and> w' = Some k \<and> m < m' \<and>
          (\<forall>(k', n) \<in> set pre. n < m')))"
proof (induction kvs arbitrary: m w)
  case Nil
  then show ?case by simp
next
  case (Cons a kvs)
  obtain k n where a: "a = (k, n)" by (cases a)
  show ?case
  proof (cases "n > m")
    case True
    with Cons.prems a have "foldl pick (n, Some k) kvs = (m', w')" by simp
    from Cons.IH[OF this] have le: "n \<le> m'" and all: "\<forall>(k, n) \<in> set kvs. n \<le> m'"
      and d: "(m', w') = (n, Some k) \<or>
      (\<exists>pre k' post. kvs = pre @ (k', m') # post \<and> w' = Some k' \<and> n < m' \<and>
          (\<forall>(k', n) \<in> set pre. n < m'))" by blast+
    from d show ?thesis
    proof
      assume "(m', w') = (n, Some k)"
      then have "a # kvs = [] @ (k, m') # kvs \<and> w' = Some k \<and> m < m'" using a True by simp
      then show ?thesis using le all True a by fastforce
    next
      assume "\<exists>pre k' post. kvs = pre @ (k', m') # post \<and> w' = Some k' \<and> n < m' \<and>
          (\<forall>(k', n) \<in> set pre. n < m')"
      then obtain pre k' post where p: "kvs = pre @ (k', m') # post" "w' = Some k'" "n < m'"
          "\<forall>(k', n) \<in> set pre. n < m'" by blast
      then have "a # kvs = (a # pre) @ (k', m') # post \<and> w' = Some k' \<and> m < m' \<and>
          (\<forall>(k', n) \<in> set (a # pre). n < m')" using a True by simp
      then show ?thesis using le all True a by (metis (no_types, lifting) case_prodI2 le_trans less_imp_le set_ConsD old.prod.case)
    qed
  next
    case False
    with Cons.prems a have "foldl pick (m, w) kvs = (m', w')" by simp
    from Cons.IH[OF this] have le: "m \<le> m'" and all: "\<forall>(k, n) \<in> set kvs. n \<le> m'"
      and d: "(m', w') = (m, w) \<or>
      (\<exists>pre k' post. kvs = pre @ (k', m') # post \<and> w' = Some k' \<and> m < m' \<and>
          (\<forall>(k', n) \<in> set pre. n < m'))" by blast+
    from d show ?thesis
    proof
      assume "(m', w') = (m, w)"
      then show ?thesis using le all False a by auto
    next
      assume "\<exists>pre k' post. kvs = pre @ (k', m') # post \<and> w' = Some k' \<and> m < m' \<and>
          (\<forall>(k', n) \<in> set pre. n < m')"
      then obtain pre k' post where p: "kvs = pre @ (k', m') # post" "w' = Some k'" "m < m'"
          "\<forall>(k', n) \<in> set pre. n < m'" by blast
      then have "a # kvs = (a # pre) @ (k', m') # post \<and> w' = Some k' \<and> m < m' \<and>
          (\<forall>(k', n) \<in> set (a # pre). n < m')" using a False by auto
      moreover have "\<forall>(k, n) \<in> set (a # kvs). n \<le> m'" using all a False le by auto
      ultimately show ?thesis using le by blast
    qed
  qed
qed

lemma findWinner_empty: "findWinner [] = (0, None)"
  by (simp add: findWinner_def)

lemma tally_ok_pos: "tally_ok kvs cs \<Longrightarrow> (k, n) \<in> set kvs \<Longrightarrow> n = count_list cs k \<and> k \<in> set cs \<and> 0 < n"
proof -
  assume t: "tally_ok kvs cs" and i: "(k, n) \<in> set kvs"
  from t have d: "distinct (map fst kvs)" by (simp add: tally_ok_def)
  from d i have "map_of kvs k = Some n" by simp
  moreover from t have "map_of kvs k = (if k \<in> set cs then Some (count_list cs k) else None)"
    by (simp add: tally_ok_def)
  ultimately have "k \<in> set cs" "n = count_list cs k" by (auto split: if_splits)
  then show ?thesis using count_list_0_iff[of cs k] by simp
qed

lemma findWinner_tally:
  assumes t: "tally_ok kvs cs" and ne: "cs \<noteq> []" and f: "findWinner kvs = (m, w)"
  shows "\<exists>x pre post. w = Some x \<and> m = count_list cs x \<and>
           rev (remdups (rev cs)) = pre @ x # post \<and>
           (\<forall>c \<in> set pre. count_list cs c < count_list cs x) \<and>
           (\<forall>c \<in> set post. count_list cs c \<le> count_list cs x)"
proof -
  from t have keys: "map fst kvs = rev (remdups (rev cs))" by (simp add: tally_ok_def)
  from f have fo: "foldl pick (0, None) kvs = (m, w)" by (simp add: findWinner_def)
  from foldl_pick[OF fo] have ub: "\<forall>(k, n) \<in> set kvs. n \<le> m"
    and d: "(m, w) = (0, None) \<or>
      (\<exists>pre k post. kvs = pre @ (k, m) # post \<and> w = Some k \<and> 0 < m \<and>
          (\<forall>(k', n) \<in> set pre. n < m))" by blast+
  from ne keys have "kvs \<noteq> []" by (metis Nil_is_map_conv Nil_is_rev_conv remdups_eq_nil_iff)
  then obtain k0 n0 where in0: "(k0, n0) \<in> set kvs" by (cases kvs) auto
  from tally_ok_pos[OF t in0] ub in0 have "0 < m" by fastforce
  with d obtain pre k post where p: "kvs = pre @ (k, m) # post" "w = Some k"
      "\<forall>(k', n) \<in> set pre. n < m" by auto
  have km: "m = count_list cs k" using tally_ok_pos[OF t, of k m] p(1) by simp
  have 1: "rev (remdups (rev cs)) = map fst pre @ k # map fst post"
    using keys p(1) by simp
  have 2: "\<forall>c \<in> set (map fst pre). count_list cs c < count_list cs k"
  proof
    fix c assume "c \<in> set (map fst pre)"
    then obtain n where cn: "(c, n) \<in> set pre" by auto
    then have "(c, n) \<in> set kvs" using p(1) by simp
    from tally_ok_pos[OF t this] cn p(3) km show "count_list cs c < count_list cs k" by auto
  qed
  have 3: "\<forall>c \<in> set (map fst post). count_list cs c \<le> count_list cs k"
  proof
    fix c assume "c \<in> set (map fst post)"
    then obtain n where cn: "(c, n) \<in> set post" by auto
    then have i: "(c, n) \<in> set kvs" using p(1) by simp
    from tally_ok_pos[OF t i] ub i km show "count_list cs c \<le> count_list cs k" by auto
  qed
  from p(2) km 1 2 3 show ?thesis by blast
qed

lemma save_set: "set (save e es) \<subseteq> insert e (set es)"
  by (induction es) auto

lemma list_ex_set: "list_ex P xs \<longleftrightarrow> (\<exists>x \<in> set xs. P x)"
  by (simp add: list_ex_iff)

lemma castVote_ledgers:
  assumes inv: "\<forall>e \<in> set (Elections d). ledgers_ok e"
    and ok: "castVote d s i c now = Inr d'"
  shows "\<forall>e \<in> set (Elections d'). ledgers_ok e"
proof -
  from ok obtain election where
    f: "election \<in> set (Elections d)" and nv: "\<not> hasVoted election (Some s) Null"
    and d': "d' = d\<lparr>Elections := save
                 (election\<lparr>votes := votes election @
                    [\<lparr>v_student = s, v_candidate = c, v_timestamp = now\<rparr>]\<rparr>)
                 (Elections d)\<rparr>"
    by (auto simp: castVote_def find_Some_iff split: option.splits if_splits) (metis nth_mem)
  from nv have "s \<notin> v_student ` set (votes election)"
    by (auto simp: hasVoted_def list_ex_iff split: if_splits)
  with inv f have "ledgers_ok (election\<lparr>votes := votes election @
                    [\<lparr>v_student = s, v_candidate = c, v_timestamp = now\<rparr>]\<rparr>)"
    by (auto simp: ledgers_ok_def)
  with inv d' save_set show ?thesis by fastforce
qed

lemma submitPublicVote_InrD:
  assumes "submitPublicVote cast d token c r ip ua now = Inr d'"
  shows "\<exists>cid election cand roll.
     truthy c \<and>
     find (\<lambda>e. qr_accessToken e = Some token \<and> qr_isEnabled e) (Elections d) = Some election \<and>
     isVotingAllowed election now \<and>
     \<not> (pa_requireRollNumber election \<and> \<not> truthy r) \<and>
     \<not> (truthy r \<and> hasVoted election None r) \<and>
     cast c = Some cid \<and>
     find (\<lambda>k. cand_id k = cid) (Candidates d) = Some cand \<and>
     list_ex (\<lambda>k. JString (oidToString (cand_id k)) = c) (populateCandidates d election) \<and>
     castString (if truthy r then r else JString (''anonymous_'' @ toString now)) = Some roll \<and>
     d' = d\<lparr>Elections := save
                   (election\<lparr>anonymousVotes := anonymousVotes election @
                      [\<lparr>av_rollNumber = roll, av_candidate = cid, av_ipAddress = ip,
                        av_userAgent = ua, av_timestamp = now\<rparr>]\<rparr>)
                   (Elections d)\<rparr>"
  using assms unfolding submitPublicVote_def
  by (auto split: option.splits if_splits)

lemma find_SomeD: "find P xs = Some x \<Longrightarrow> x \<in> set xs \<and> P x"
  by (induction xs) (auto split: if_splits)

lemma submitPublicVote_ledgers:
  assumes inv: "\<forall>e \<in> set (Elections d). ledgers_ok e"
    and t: "textRoll (SubmitPublicVote token c r ip ua now)"
    and ok: "submitPublicVote cast d token c r ip ua now = Inr d'"
  shows "\<forall>e \<in> set (Elections d'). ledgers_ok e"
proof -
  from submitPublicVote_InrD[OF ok] obtain cid :: oid and election :: election and roll where
    f: "find (\<lambda>e. qr_accessToken e = Some token \<and> qr_isEnabled e) (Elections d) = Some election"
    and rq: "\<not> (pa_requireRollNumber election \<and> \<not> truthy r)"
    and nv: "\<not> (truthy r \<and> hasVoted election None r)"
    and cs: "castString (if truthy r then r else JString (''anonymous_'' @ toString now)) = Some roll"
    and d': "d' = d\<lparr>Elections := save
                   (election\<lparr>anonymousVotes := anonymousVotes election @
                      [\<lparr>av_rollNumber = roll, av_candidate = cid, av_ipAddress = ip,
                        av_userAgent = ua, av_timestamp = now\<rparr>]\<rparr>)
                   (Elections d)\<rparr>"
    by auto
  from find_SomeD[OF f] have m: "election \<in> set (Elections d)" by simp
  have "ledgers_ok (election\<lparr>anonymousVotes := anonymousVotes election @
                      [\<lparr>av_rollNumber = roll, av_candidate = cid, av_ipAddress = ip,
                        av_userAgent = ua, av_timestamp = now\<rparr>]\<rparr>)"
  proof (cases "pa_requireRollNumber election")
    case True
    with rq have tr: "truthy r" by simp
    with t obtain x where x: "r = JString x" by (cases r) simp_all
    with cs tr have "roll = x" by simp
    moreover from nv tr x have "x \<notin> av_rollNumber ` set (anonymousVotes election)"
      by (auto simp: hasVoted_def list_ex_iff split: if_splits)
    ultimately show ?thesis using inv m by (auto simp: ledgers_ok_def)
  next
    case False
    with inv m show ?thesis by (auto simp: ledgers_ok_def)
  qed
  with inv d' save_set show ?thesis by fastforce
qed

lemma serve_ledgers:
  assumes "\<forall>e \<in> set (Elections d). ledgers_ok e" and "textRoll r"
  shows "\<forall>e \<in> set (Elections (serve cast d r)). ledgers_ok e"
proof (cases r)
  case (CastVote s i c now)
  then show ?thesis using assms(1) castVote_ledgers[of d s i c now]
    by (cases "castVote d s i c now") (simp_all add: serve_def outcome_def)
next
  case (SubmitPublicVote token c rn ip ua now)
  then show ?thesis using assms submitPublicVote_ledgers[of d token c rn ip ua now cast]
    by (cases "submitPublicVote cast d token c rn ip ua now") (simp_all add: serve_def outcome_def)
qed

lemma serveAll_ledgers:
  "\<forall>e \<in> set (Elections d). ledgers_ok e \<Longrightarrow> \<forall>r \<in> set rs. textRoll r \<Longrightarrow>
     \<forall>e \<in> set (Elections (serveAll cast d rs)). ledgers_ok e"
  unfolding serveAll_def
proof (induction rs arbitrary: d)
  case Nil then show ?case by simp
next
  case (Cons r rs)
  from Cons.prems have "\<forall>e \<in> set (Elections (serve cast d r)). ledgers_ok e"
    by (intro serve_ledgers) simp_all
  from Cons.IH[OF this] Cons.prems(2) show ?case by simp
qed

lemma distinct_count_le1: "distinct xs \<longleftrightarrow> (\<forall>x. count_list xs x \<le> 1)"
proof (induction xs)
  case Nil
  then show ?case by simp
next
  case (Cons a xs)
  show ?case
  proof
    assume d: "distinct (a # xs)"
    then have "a \<notin> set xs" "\<forall>x. count_list xs x \<le> 1" using Cons.IH by simp_all
    then show "\<forall>x. count_list (a # xs) x \<le> 1" by simp
  next
    assume c: "\<forall>x. count_list (a # xs) x \<le> 1"
    then have "count_list (a # xs) a \<le> 1" by blast
    then have "count_list xs a = 0" by simp
    then have n: "a \<notin> set xs" by (simp add: count_list_0_iff)
    have "count_list xs x \<le> 1" for x
      using c[rule_format, of x] by (simp split: if_splits)
    with n Cons.IH show "distinct (a # xs)" by simp
  qed
qed

lemma serve_votes_distinct:
  assumes "\<forall>e \<in> set (Elections d). distinct (map v_student (votes e))"
  shows "\<forall>e \<in> set (Elections (serve cast d r)). distinct (map v_student (votes e))"
proof (cases "handle cast d r")
  case (Inl err)
  with assms show ?thesis by (simp add: serve_def outcome_def)
next
  case (Inr d')
  have "\<exists>election e'. election \<in> set (Elections d) \<and> Elections d' = save e' (Elections d) \<and>
          distinct (map v_student (votes e'))"
  proof (cases r)
    case (CastVote s i c now)
    with Inr have ok: "castVote d s i c now = Inr d'" by simp
    then obtain election where
      f: "election \<in> set (Elections d)" and nv: "\<not> hasVoted election (Some s) Null"
      and d': "d' = d\<lparr>Elections := save
                 (election\<lparr>votes := votes election @
                    [\<lparr>v_student = s, v_candidate = c, v_timestamp = now\<rparr>]\<rparr>)
                 (Elections d)\<rparr>"
      by (auto simp: castVote_def find_Some_iff split: option.splits if_splits) (metis nth_mem)
    from nv have "s \<notin> v_student ` set (votes election)"
      by (auto simp: hasVoted_def list_ex_iff split: if_splits)
    with assms f have "distinct (map v_student (votes (election\<lparr>votes := votes election @
                    [\<lparr>v_student = s, v_candidate = c, v_timestamp = now\<rparr>]\<rparr>)))" by auto
    with f d' show ?thesis by auto
  next
    case (SubmitPublicVote token c rn ip ua now)
    with Inr have ok: "submitPublicVote cast d token c rn ip ua now = Inr d'" by simp
    from submitPublicVote_InrD[OF ok] obtain cid :: oid and election :: election and roll where
      f: "find (\<lambda>e. qr_accessToken e = Some token \<and> qr_isEnabled e) (Elections d) = Some election"
      and d': "d' = d\<lparr>Elections := save
                   (election\<lparr>anonymousVotes := anonymousVotes election @
                      [\<lparr>av_rollNumber = roll, av_candidate = cid, av_ipAddress = ip,
                        av_userAgent = ua, av_timestamp = now\<rparr>]\<rparr>)
                   (Elections d)\<rparr>"
      by auto
    from find_SomeD[OF f] have m: "election \<in> set (Elections d)" by simp
    with assms have "distinct (map v_student (votes (election\<lparr>anonymousVotes := anonymousVotes election @
                      [\<lparr>av_rollNumber = roll, av_candidate = cid, av_ipAddress = ip,
                        av_userAgent = ua, av_timestamp = now\<rparr>]\<rparr>)))" by auto
    with m d' show ?thesis by auto
  qed
  then obtain e' :: election where "Elections d' = save e' (Elections d)"
    "distinct (map v_student (votes e'))" by auto
  with assms save_set[of e' "Elections d"] Inr show ?thesis
    by (auto simp: serve_def outcome_def)
qed

lemma authenticated_one_vote_per_student:
  "\<forall>e \<in> set (Elections d). distinct (map v_student (votes e)) \<Longrightarrow>
     \<forall>e \<in> set (Elections (serveAll cast d rs)). distinct (map v_student (votes e))"
  unfolding serveAll_def
proof (induction rs arbitrary: d)
  case Nil then show ?case by simp
next
  case (Cons r rs)
  from Cons.IH[OF serve_votes_distinct[OF Cons.prems]] show ?case by simp
qed

lemma text_rolls_one_vote_per_identity:
  assumes "\<forall>e \<in> set (Elections d). \<forall>s r.
      count_list (map v_student (votes e)) s \<le> 1 \<and>
      (pa_requireRollNumber e \<longrightarrow> count_list (map av_rollNumber (anonymousVotes e)) r \<le> 1)"
    and "\<forall>r \<in> set rs. textRoll r"
  shows "\<forall>e \<in> set (Elections (serveAll cast d rs)). \<forall>s r.
      count_list (map v_student (votes e)) s \<le> 1 \<and>
      (pa_requireRollNumber e \<longrightarrow> count_list (map av_rollNumber (anonymousVotes e)) r \<le> 1)"
proof -
  from assms(1) have "\<forall>e \<in> set (Elections d). ledgers_ok e"
    by (simp add: ledgers_ok_def distinct_count_le1)
  from serveAll_ledgers[OF this assms(2), of cast] show ?thesis
    by (simp add: ledgers_ok_def distinct_count_le1)
qed

lemma castVote_InrD:
  assumes "castVote d s i c now = Inr d'"
  shows "\<exists>student cls election cand.
     find (\<lambda>u. u_id u = s) (Users d) = Some student \<and>
     populateClass d student = Some cls \<and>
     find (\<lambda>e. e_id e = i \<and> e_class e = c_id cls \<and> status e = Active) (Elections d)
       = Some election \<and>
     startDate election \<le> now \<and> now \<le> endDate election \<and>
     \<not> hasVoted election (Some s) Null \<and>
     find (\<lambda>k. cand_id k = c \<and> cand_election k = i \<and> approved k \<and> cand_active k)
       (Candidates d) = Some cand \<and>
     d' = d\<lparr>Elections := save
                 (election\<lparr>votes := votes election @
                    [\<lparr>v_student = s, v_candidate = c, v_timestamp = now\<rparr>]\<rparr>)
                 (Elections d)\<rparr>"
  using assms unfolding castVote_def
  by (auto split: option.splits if_splits)

lemma findById_save:
  "findById i es = Some e \<Longrightarrow> e_id e' = i \<Longrightarrow> findById i (save e' es) = Some e'"
  unfolding findById_def by (induction es) (auto split: if_splits)

lemma findById_id: "findById i es = Some e \<Longrightarrow> e_id e = i \<and> e \<in> set es"
  unfolding findById_def by (drule find_SomeD) simp

lemma calculateResults_empty:
  "votes e = [] \<Longrightarrow> calculateResults e now =
     (e, \<lparr>totalVotes = 0, voteCounts = [], winnerId = None, maxVotes = 0\<rparr>)"
  by (simp add: calculateResults_def countVotes_def findWinner_def)

lemma calculateResults_id: "e_id (fst (calculateResults e now)) = e_id e"
  by (simp add: calculateResults_def Let_def split: prod.splits option.splits)

lemma updateDates_not_pending: "status e \<noteq> Pending \<Longrightarrow> updateDates e req now = Inr e"
  by (simp add: updateDates_def)

lemma updateElection_InrD:
  assumes "updateElection d t i req now = Inr d'"
  shows "\<exists>election election3.
     findById i (Elections d) = Some election \<and>
     hasPermission d election t \<and>
     \<not> (status election = Completed \<and> ur_status req \<noteq> ''completed'') \<and>
     updateDates
       ((if ur_description req \<noteq> [] then (\<lambda>x. x\<lparr>description := ur_description req\<rparr>) else (\<lambda>x. x))
         (if ur_title req \<noteq> [] then election\<lparr>title := trim (ur_title req)\<rparr> else election))
       req now = Inr election3 \<and>
     validates (updateStatus election3 (ur_status req) now) \<and>
     d' = d\<lparr>Elections := save (updateStatus election3 (ur_status req) now) (Elections d)\<rparr>"
  using assms unfolding updateElection_def
  by (auto simp: Let_def split: option.splits if_splits sum.splits)

lemma save_update:
  "findById i es = Some e \<Longrightarrow> e_id e' = i \<Longrightarrow>
     \<exists>k < length es. es ! k = e \<and> save e' es = es[k := e']"
  unfolding findById_def
proof (induction es)
  case Nil then show ?case by simp
next
  case (Cons x xs)
  show ?case
  proof (cases "e_id x = i")
    case True
    with Cons.prems have "x = e" by simp
    with True Cons.prems(2) have "(x # xs) ! 0 = e \<and> save e' (x # xs) = (x # xs)[0 := e']" by simp
    then show ?thesis by blast
  next
    case False
    with Cons.prems have "find (\<lambda>e. e_id e = i) xs = Some e" by simp
    from Cons.IH[OF this Cons.prems(2)] obtain k where
      k: "k < length xs" "xs ! k = e" "save e' xs = xs[k := e']" by blast
    with False Cons.prems(2) have "Suc k < length (x # xs) \<and> (x # xs) ! Suc k = e \<and>
        save e' (x # xs) = (x # xs)[Suc k := e']" by simp
    then show ?thesis by blast
  qed
qed

lemma findById_distinct:
  "distinct (map e_id es) \<Longrightarrow> e \<in> set es \<Longrightarrow> findById (e_id e) es = Some e"
  unfolding findById_def by (induction es) (auto simp: image_iff)

lemma save_keeps_terminal:
  assumes f: "findById i es = Some e" and i: "e_id e' = i"
    and t: "terminal (status e) \<Longrightarrow> status e' = status e"
    and k: "k < length es" "terminal (status (es ! k))"
  shows "length (save e' es) = length es \<and> status (save e' es ! k) = status (es ! k)"
proof -
  from save_update[OF f i] obtain j where j: "j < length es" "es ! j = e" "save e' es = es[j := e']"
    by blast
  show ?thesis
  proof (cases "j = k")
    case True
    with j k t show ?thesis by simp
  next
    case False
    with j k show ?thesis by simp
  qed
qed

lemma calculateResults_completed:
  "status e = Completed \<Longrightarrow> status (fst (calculateResults e now)) = Completed"
  by (simp add: calculateResults_def Let_def split: prod.splits option.splits)

lemma updateDates_status: "updateDates e req now = Inr e' \<Longrightarrow> \<not> terminal (status e) \<or> e' = e"
  by (auto simp: updateDates_def terminal_def split: if_splits)

lemma updateDates_id: "updateDates e req now = Inr e' \<Longrightarrow> e_id e' = e_id e"
  by (auto simp: updateDates_def updateStart_def updateEnd_def
      split: if_splits option.splits date.splits sum.splits)

lemma updateStatus_id: "e_id (updateStatus e st now) = e_id e"
  by (simp add: updateStatus_def calculateResults_id)

lemma updateStatus_terminal:
  "terminal (status e) \<Longrightarrow> \<not> (status e = Completed \<and> st \<noteq> ''completed'') \<Longrightarrow>
     status (updateStatus e st now) = status e"
  by (auto simp: updateStatus_def terminal_def)

lemma updateElection_terminal:
  assumes "updateElection d t i req now = Inr d'"
  shows "\<exists>e e'. findById i (Elections d) = Some e \<and> e_id e' = i \<and>
           Elections d' = save e' (Elections d) \<and> (terminal (status e) \<longrightarrow> status e' = status e)"
proof -
  let ?f = "\<lambda>e. (if ur_description req \<noteq> [] then (\<lambda>x. x\<lparr>description := ur_description req\<rparr>) else (\<lambda>x. x))
         (if ur_title req \<noteq> [] then e\<lparr>title := trim (ur_title req)\<rparr> else e)"
  from updateElection_InrD[OF assms] obtain e :: election and e3 :: election where
    f: "findById i (Elections d) = Some e"
    and c: "\<not> (status e = Completed \<and> ur_status req \<noteq> ''completed'')"
    and u: "updateDates (?f e) req now = Inr e3"
    and d': "d' = d\<lparr>Elections := save (updateStatus e3 (ur_status req) now) (Elections d)\<rparr>"
    by auto
  have s: "status (?f e) = status e" "e_id (?f e) = e_id e" by auto
  have id: "e_id (updateStatus e3 (ur_status req) now) = i"
    using updateDates_id[OF u] s(2) findById_id[OF f] by (simp add: updateStatus_id)
  have "status (updateStatus e3 (ur_status req) now) = status e" if t: "terminal (status e)"
  proof -
    from updateDates_status[OF u] t s(1) have "e3 = ?f e" by simp
    then have "status e3 = status e" using s(1) by simp
    with updateStatus_terminal[of e3 "ur_status req" now] t c show ?thesis by simp
  qed
  then have "findById i (Elections d) = Some e \<and> e_id (updateStatus e3 (ur_status req) now) = i \<and>
           Elections d' = save (updateStatus e3 (ur_status req) now) (Elections d) \<and>
           (terminal (status e) \<longrightarrow> status (updateStatus e3 (ur_status req) now) = status e)"
    using f id d' by simp
  then show ?thesis by blast
qed

lemma publishResults_terminal:
  assumes "publishResults d t i now = Inr d'"
  shows "\<exists>e e'. findById i (Elections d) = Some e \<and> e_id e' = i \<and>
           Elections d' = save e' (Elections d) \<and> (terminal (status e) \<longrightarrow> status e' = status e)"
proof -
  from assms obtain e :: election where
    f: "findById i (Elections d) = Some e"
    and c: "\<not> (status e \<noteq> Completed \<and> \<not> (status e = Active \<and> endDate e \<le> now))"
    and d': "d' = d\<lparr>Elections := save
               ((fst (calculateResults (if status e \<noteq> Completed then e\<lparr>status := Completed\<rparr> else e) now))
                  \<lparr>res_published := True, res_publishedAt := Some now\<rparr>) (Elections d)\<rparr>"
    unfolding publishResults_def by (auto simp: Let_def split: option.splits if_splits)
  let ?e' = "(fst (calculateResults (if status e \<noteq> Completed then e\<lparr>status := Completed\<rparr> else e) now))
                  \<lparr>res_published := True, res_publishedAt := Some now\<rparr>"
  have "e_id ?e' = i" using findById_id[OF f] by (simp add: calculateResults_id)
  moreover have "terminal (status e) \<longrightarrow> status ?e' = status e"
    using c by (auto simp: terminal_def calculateResults_completed)
  moreover have "Elections d' = save ?e' (Elections d)" using d' by simp
  ultimately have "findById i (Elections d) = Some e \<and> e_id ?e' = i \<and>
           Elections d' = save ?e' (Elections d) \<and> (terminal (status e) \<longrightarrow> status ?e' = status e)"
    using f by blast
  then show ?thesis by blast
qed

lemma castVote_terminal:
  assumes dist: "distinct (map e_id (Elections d))" and "castVote d s i c now = Inr d'"
  shows "\<exists>e e'. findById i (Elections d) = Some e \<and> e_id e' = i \<and>
           Elections d' = save e' (Elections d) \<and> (terminal (status e) \<longrightarrow> status e' = status e)"
proof -
  from castVote_InrD[OF assms(2)] obtain cls :: classDoc and e :: election where
    f: "find (\<lambda>e. e_id e = i \<and> e_class e = c_id cls \<and> status e = Active) (Elections d) = Some e"
    and d': "d' = d\<lparr>Elections := save
                 (e\<lparr>votes := votes e @ [\<lparr>v_student = s, v_candidate = c, v_timestamp = now\<rparr>]\<rparr>)
                 (Elections d)\<rparr>"
    by auto
  from find_SomeD[OF f] have m: "e \<in> set (Elections d)" "e_id e = i" by auto
  let ?e' = "e\<lparr>votes := votes e @ [\<lparr>v_student = s, v_candidate = c, v_timestamp = now\<rparr>]\<rparr>"
  from findById_distinct[OF dist m(1)] m(2) have "findById i (Elections d) = Some e" by simp
  moreover have "e_id ?e' = i" "status ?e' = status e" using m(2) by simp_all
  moreover have "Elections d' = save ?e' (Elections d)" using d' by simp
  ultimately have "findById i (Elections d) = Some e \<and> e_id ?e' = i \<and>
           Elections d' = save ?e' (Elections d) \<and> (terminal (status e) \<longrightarrow> status ?e' = status e)"
    by blast
  then show ?thesis by blast
qed

lemma updateElectionStatus_stores:
  assumes f: "findById i (Elections d) = Some e" and p: "parseStatus st = Some st'"
  shows "\<exists>e'. findById i (Elections (outcome d (updateElectionStatus d i st now))) = Some e' \<and>
            status e' = st'"
proof -
  let ?e1 = "e\<lparr>status := st'\<rparr>"
  let ?e2 = "if st = ''completed'' then fst (calculateResults ?e1 now) else ?e1"
  have u: "updateElectionStatus d i st now = Inr (d\<lparr>Elections := save ?e2 (Elections d)\<rparr>)"
    using f p by (simp add: updateElectionStatus_def Let_def)
  have c: "st = ''completed'' \<Longrightarrow> st' = Completed"
    using p by (simp add: parseStatus_def split: if_splits)
  have id: "e_id ?e2 = i" using findById_id[OF f] by (simp add: calculateResults_id)
  have st: "status ?e2 = st'" using c by (simp add: calculateResults_completed)
  from findById_save[OF f id] u have
    "findById i (Elections (outcome d (updateElectionStatus d i st now))) = Some ?e2"
    by (simp add: outcome_def)
  with st show ?thesis by blast
qed

lemma overlapQuery_of_overlap:
  "s \<le> endDate x \<and> e \<ge> startDate x \<Longrightarrow> overlapQuery s e x"
  unfolding overlapQuery_def by linarith

lemma overlapQuery_iff:
  "startDate x \<le> endDate x \<Longrightarrow> s \<le> e \<Longrightarrow>
     overlapQuery s e x \<longleftrightarrow> s \<le> endDate x \<and> e \<ge> startDate x"
  unfolding overlapQuery_def by linarith

lemma find_NoneD: "find P xs = None \<Longrightarrow> x \<in> set xs \<Longrightarrow> \<not> P x"
  by (simp add: find_None_iff)

lemma find_NoneI: "(\<And>x. x \<in> set xs \<Longrightarrow> \<not> P x) \<Longrightarrow> find P xs = None"
  by (simp add: find_None_iff)

lemma createElection_InrD:
  assumes "createElection d t req now newId = Inr d'"
  shows "\<exists>classId s e. cr_classId req = Some classId \<and> cr_startDate req = Some (Date s) \<and>
           cr_endDate req = Some (Date e) \<and>
           find (\<lambda>x. e_class x = classId \<and> status x \<in> set [Active, Pending]
                       \<and> overlapQuery s e x) (Elections d) = None"
  using assms unfolding createElection_def
  by (auto split: option.splits if_splits date.splits)

lemma createElection_overlap:
  "((\<exists>x \<in> set (Elections d). e_class x = classId \<and>
        (status x = Pending \<or> status x = Active) \<and>
        s \<le> endDate x \<and> e \<ge> startDate x) \<and>
    cr_classId req = Some classId \<and> cr_startDate req = Some (Date s) \<and>
    cr_endDate req = Some (Date e) \<longrightarrow>
      (\<exists>err. createElection d t req now newId = Inl err)) \<and>
   (startDate x \<le> endDate x \<and> s \<le> e \<longrightarrow>
      (overlapQuery s e x \<longleftrightarrow> s \<le> endDate x \<and> e \<ge> startDate x)) \<and>
   (cr_classId req = Some classId \<and> cr_startDate req = Some (Date s) \<and>
    cr_endDate req = Some (Date e) \<and>
    cr_title req \<noteq> [] \<and> cr_description req \<noteq> [] \<and> cr_electionType req \<noteq> [] \<and>
    list_ex (\<lambda>c. c_id c = classId \<and> classTeacher c = Some t \<and> c_active c) (Classes d) \<and>
    now \<le> s \<and> s < e \<and>
    validates (newElection newId req classId s e t) \<and>
    (\<forall>y \<in> set (Elections d). e_class y = classId \<longrightarrow>
        \<not> ((status y = Pending \<or> status y = Active) \<and> overlapQuery s e y)) \<longrightarrow>
      createElection d t req now newId =
        Inr (d\<lparr>Elections := Elections d @ [newElection newId req classId s e t]\<rparr>))"
proof (intro conjI impI)
  assume h: "(\<exists>x \<in> set (Elections d). e_class x = classId \<and>
        (status x = Pending \<or> status x = Active) \<and>
        s \<le> endDate x \<and> e \<ge> startDate x) \<and>
    cr_classId req = Some classId \<and> cr_startDate req = Some (Date s) \<and>
    cr_endDate req = Some (Date e)"
  then obtain y :: election where y: "y \<in> set (Elections d)" "e_class y = classId"
    "status y = Pending \<or> status y = Active" "s \<le> endDate y \<and> e \<ge> startDate y" by blast
  show "\<exists>err. createElection d t req now newId = Inl err"
  proof (cases "createElection d t req now newId")
    case (Inl err) then show ?thesis by blast
  next
    case (Inr d')
    from createElection_InrD[OF Inr] h have
      "find (\<lambda>x. e_class x = classId \<and> status x \<in> set [Active, Pending]
                       \<and> overlapQuery s e x) (Elections d) = None" by auto
    from find_NoneD[OF this y(1)] y(2,3) overlapQuery_of_overlap[OF y(4)] have False by auto
    then show ?thesis ..
  qed
next
  assume "startDate x \<le> endDate x \<and> s \<le> e"
  then show "overlapQuery s e x \<longleftrightarrow> s \<le> endDate x \<and> e \<ge> startDate x"
    by (simp add: overlapQuery_iff)
next
  assume h: "cr_classId req = Some classId \<and> cr_startDate req = Some (Date s) \<and>
    cr_endDate req = Some (Date e) \<and>
    cr_title req \<noteq> [] \<and> cr_description req \<noteq> [] \<and> cr_electionType req \<noteq> [] \<and>
    list_ex (\<lambda>c. c_id c = classId \<and> classTeacher c = Some t \<and> c_active c) (Classes d) \<and>
    now \<le> s \<and> s < e \<and>
    validates (newElection newId req classId s e t) \<and>
    (\<forall>y \<in> set (Elections d). e_class y = classId \<longrightarrow>
        \<not> ((status y = Pending \<or> status y = Active) \<and> overlapQuery s e y))"
  then have n: "find (\<lambda>x. e_class x = classId \<and> status x \<in> set [Active, Pending]
                       \<and> overlapQuery s e x) (Elections d) = None"
    by (intro find_NoneI) auto
  from h obtain c where "find (\<lambda>c. c_id c = classId \<and> classTeacher c = Some t \<and> c_active c)
                (Classes d) = Some c"
    by (cases "find (\<lambda>c. c_id c = classId \<and> classTeacher c = Some t \<and> c_active c) (Classes d)")
       (auto simp: find_None_iff list_ex_iff)
  with h n show "createElection d t req now newId =
        Inr (d\<lparr>Elections := Elections d @ [newElection newId req classId s e t]\<rparr>)"
    by (simp add: createElection_def)
qed

lemma save_save: "e_id e' = e_id e'' \<Longrightarrow> save e'' (save e' es) = save e'' es"
  by (induction es) auto

lemma save_same: "findById (e_id e) es = Some e \<Longrightarrow> save e es = es"
  unfolding findById_def by (induction es) (auto split: if_splits)

lemma save_other:
  assumes dist: "distinct (map e_id es)" and m: "e \<in> set es" and i: "e_id e' = e_id e"
    and x: "x \<in> set (save e' es)"
  shows "x = e' \<or> (x \<in> set es \<and> x \<noteq> e)"
proof -
  from findById_distinct[OF dist m] have f: "findById (e_id e) es = Some e" .
  from save_update[OF f i] obtain k where k: "k < length es" "es ! k = e" "save e' es = es[k := e']"
    by blast
  from x k(3) obtain j where j: "j < length es" "x = es[k := e'] ! j"
    by (metis in_set_conv_nth length_list_update)
  show ?thesis
  proof (cases "j = k")
    case True with j k show ?thesis by simp
  next
    case False
    with j k have xj: "x = es ! j" by simp
    have "es ! j \<noteq> es ! k"
    proof
      assume "es ! j = es ! k"
      then have "map e_id es ! j = map e_id es ! k" using j k by simp
      moreover have "j < length (map e_id es)" "k < length (map e_id es)" using j k by simp_all
      ultimately have "j = k" using dist nth_eq_iff_index_eq by blast
      with False show False ..
    qed
    with xj j(1) k(2) show ?thesis by simp
  qed
qed

lemmas sample_defs = classOne_def classTwo_def alice_def bob_def candidateA_def candidateB_def
  election40_def college_def ballot_def countedElection_def withElection_def noRequest_def
  createFor_def

lemma hexDigits_30: "hexDigits 24 30 = ''00000000000000000000001e''"
  by code_simp

lemma hexDigits_31: "hexDigits 24 31 = ''00000000000000000000001f''"
  by code_simp

lemmas id_defs = idText_def hexDigits_30 hexDigits_31 hexTable_def

lemmas op_defs = castVote_def submitPublicVote_def populateClass_def populateCandidates_def
  hasVoted_def isVotingAllowed_def isActive_def List.map_filter_def serve_def serveAll_def
  outcome_def findById_def id_defs toString_def

lemmas teacher_defs = updateElection_def hasPermission_def updateDates_def updateStart_def
  updateEnd_def updateStatus_def validates_def trim_def isSpace_def calculateResults_def
  countVotes_def findWinner_def publishResults_def removeCandidate_def createElection_def
  newElection_def overlapQuery_def toggleQRAccess_def updateElectionStatus_def parseStatus_def

section \<open>The claims\<close>

text \<open>
  Claim C1. \<open>calculateResults\<close> tallies the authenticated ledger only. Whenever it returns
  \<open>(e', r)\<close> on an election \<open>e\<close>: the total is the length of \<open>votes e\<close>; the keys of the
  tally are the candidates of the ledger in the order of their first vote, each with the
  number of its votes; on a ledger that is not empty the winner \<open>w\<close> splits that order
  into the candidates before it, which all have strictly fewer votes, and the candidates
  after it, which have no more votes (so the first candidate that reaches the maximum
  wins a tie), and the election is stored with that winner and the status completed; the
  result does not depend on the anonymous ledger; and a ledger with five votes for \<open>A\<close>,
  three for \<open>B\<close> and no other candidate gives the winner \<open>A\<close> and a total of eight.
\<close>

theorem calculateResults_tally:
  "calculateResults e now = (e', r) \<longrightarrow>
     totalVotes r = length (votes e) \<and>
     map fst (voteCounts r) = rev (remdups (rev (map v_candidate (votes e)))) \<and>
     (\<forall>c. map_of (voteCounts r) c =
        (if c \<in> set (map v_candidate (votes e))
         then Some (count_list (map v_candidate (votes e)) c) else None)) \<and>
     (votes e \<noteq> [] \<longrightarrow>
        (\<exists>w pre post. winnerId r = Some w \<and>
           maxVotes r = count_list (map v_candidate (votes e)) w \<and>
           rev (remdups (rev (map v_candidate (votes e)))) = pre @ w # post \<and>
           (\<forall>c \<in> set pre. count_list (map v_candidate (votes e)) c
                            < count_list (map v_candidate (votes e)) w) \<and>
           (\<forall>c \<in> set post. count_list (map v_candidate (votes e)) c
                            \<le> count_list (map v_candidate (votes e)) w) \<and>
           res_winner e' = Some w \<and> status e' = Completed)) \<and>
     snd (calculateResults (e\<lparr>anonymousVotes := av\<rparr>) now) = r \<and>
     (A \<noteq> B \<and> set (map v_candidate (votes e)) = {A, B} \<and>
      count_list (map v_candidate (votes e)) A = 5 \<and>
      count_list (map v_candidate (votes e)) B = 3 \<longrightarrow>
        winnerId r = Some A \<and> res_winner e' = Some A \<and> totalVotes r = 8)"
proof
  assume c: "calculateResults e now = (e', r)"
  let ?cs = "map v_candidate (votes e)"
  obtain m w where f: "findWinner (countVotes (votes e)) = (m, w)" by (cases "findWinner (countVotes (votes e))")
  have t: "tally_ok (countVotes (votes e)) ?cs" by (rule countVotes_tally)
  from c f have r: "r = \<lparr>totalVotes = length (votes e), voteCounts = countVotes (votes e),
                  winnerId = w, maxVotes = m\<rparr>"
    and e': "e' = (case w of None \<Rightarrow> e
                   | Some x \<Rightarrow> e\<lparr>res_winner := Some x, res_published := True,
                                     res_publishedAt := Some now, status := Completed\<rparr>)"
    by (auto simp: calculateResults_def Let_def)
  have 1: "totalVotes r = length (votes e)" by (simp add: r)
  have 2: "map fst (voteCounts r) = rev (remdups (rev ?cs))"
    using t by (simp add: r tally_ok_def)
  have 3: "\<forall>c. map_of (voteCounts r) c =
        (if c \<in> set ?cs then Some (count_list ?cs c) else None)"
    using t by (simp add: r tally_ok_def)
  have 4: "\<exists>w pre post. winnerId r = Some w \<and>
           maxVotes r = count_list ?cs w \<and>
           rev (remdups (rev ?cs)) = pre @ w # post \<and>
           (\<forall>c \<in> set pre. count_list ?cs c < count_list ?cs w) \<and>
           (\<forall>c \<in> set post. count_list ?cs c \<le> count_list ?cs w) \<and>
           res_winner e' = Some w \<and> status e' = Completed" if ne: "votes e \<noteq> []"
  proof -
    from ne have "?cs \<noteq> []" by simp
    from findWinner_tally[OF t this f] obtain x pre post where
      x: "w = Some x" "m = count_list ?cs x" "rev (remdups (rev ?cs)) = pre @ x # post"
         "\<forall>c \<in> set pre. count_list ?cs c < count_list ?cs x"
         "\<forall>c \<in> set post. count_list ?cs c \<le> count_list ?cs x" by blast
    have "res_winner e' = Some x \<and> status e' = Completed" using e' x(1) by simp
    with x show ?thesis by (simp add: r) blast
  qed
  have 5: "snd (calculateResults (e\<lparr>anonymousVotes := av\<rparr>) now) = r"
    using f by (simp add: calculateResults_def Let_def r)
  have 6: "winnerId r = Some A \<and> res_winner e' = Some A \<and> totalVotes r = 8"
    if ab: "A \<noteq> B" "set ?cs = {A, B}" "count_list ?cs A = 5" "count_list ?cs B = 3"
  proof -
    from ab(2) have ne: "votes e \<noteq> []" by auto
    from 4[OF ne] obtain x pre post where
      x: "winnerId r = Some x" "rev (remdups (rev ?cs)) = pre @ x # post"
         "\<forall>c \<in> set pre. count_list ?cs c < count_list ?cs x"
         "\<forall>c \<in> set post. count_list ?cs c \<le> count_list ?cs x"
         "res_winner e' = Some x" by blast
    have "set (rev (remdups (rev ?cs))) = {A, B}" using ab(2) by simp
    then have s: "set pre \<union> {x} \<union> set post = {A, B}" using x(2) by simp
    then have "x = A \<or> x = B" by blast
    moreover have "x \<noteq> B"
    proof
      assume "x = B"
      then have "A \<in> set pre \<union> set post" using s ab(1) by blast
      then have "count_list ?cs A \<le> count_list ?cs B" using x(3,4) \<open>x = B\<close> by auto
      with ab(3,4) show False by simp
    qed
    ultimately have xa: "x = A" by blast
    have "sum (count_list ?cs) {A, B} = length ?cs"
      using ab(2) by (intro sum_count_set) auto
    then have "length ?cs = 8" using ab(1,3,4) by simp
    with xa x(1,5) 1 show ?thesis by simp
  qed
  from 1 2 3 4 5 6 show "totalVotes r = length (votes e) \<and>
     map fst (voteCounts r) = rev (remdups (rev ?cs)) \<and>
     (\<forall>c. map_of (voteCounts r) c =
        (if c \<in> set ?cs then Some (count_list ?cs c) else None)) \<and>
     (votes e \<noteq> [] \<longrightarrow>
        (\<exists>w pre post. winnerId r = Some w \<and>
           maxVotes r = count_list ?cs w \<and>
           rev (remdups (rev ?cs)) = pre @ w # post \<and>
           (\<forall>c \<in> set pre. count_list ?cs c < count_list ?cs w) \<and>
           (\<forall>c \<in> set post. count_list ?cs c \<le> count_list ?cs w) \<and>
           res_winner e' = Some w \<and> status e' = Completed)) \<and>
     snd (calculateResults (e\<lparr>anonymousVotes := av\<rparr>) now) = r \<and>
     (A \<noteq> B \<and> set ?cs = {A, B} \<and> count_list ?cs A = 5 \<and> count_list ?cs B = 3 \<longrightarrow>
        winnerId r = Some A \<and> res_winner e' = Some A \<and> totalVotes r = 8)"
    by blast
qed

text \<open>
  Claim C1, at the ledger of \<open>countedElection\<close>: the votes arrive in mixed order, the
  tally is 5 to 3, candidate 30 wins, and three anonymous votes for candidate 31 do not
  change the winner.
\<close>

theorem calculateResults_tally_witness:
  "calculateResults countedElection 150 =
     (countedElection\<lparr>res_winner := Some (ObjectId 30), res_published := True,
                       res_publishedAt := Some 150, status := Completed\<rparr>,
      \<lparr>totalVotes = 8, voteCounts = [(ObjectId 30, 5), (ObjectId 31, 3)],
       winnerId = Some (ObjectId 30), maxVotes = 5\<rparr>) \<and>
   votes countedElection \<noteq> [] \<and>
   ObjectId 30 \<noteq> ObjectId 31 \<and>
   set (map v_candidate (votes countedElection)) = {ObjectId 30, ObjectId 31} \<and>
   count_list (map v_candidate (votes countedElection)) (ObjectId 30) = 5 \<and>
   count_list (map v_candidate (votes countedElection)) (ObjectId 31) = 3 \<and>
   winnerId (snd (calculateResults
      (countedElection\<lparr>anonymousVotes := [rollVote ''R1'' 31, rollVote ''R2'' 31,
                                           rollVote ''R3'' 31]\<rparr>) 150)) = Some (ObjectId 30)"
proof -
  have c: "calculateResults countedElection 150 =
     (countedElection\<lparr>res_winner := Some (ObjectId 30), res_published := True,
                       res_publishedAt := Some 150, status := Completed\<rparr>,
      \<lparr>totalVotes = 8, voteCounts = [(ObjectId 30, 5), (ObjectId 31, 3)],
       winnerId = Some (ObjectId 30), maxVotes = 5\<rparr>)"
    by (simp add: sample_defs calculateResults_def countVotes_def findWinner_def)
  have v: "votes countedElection \<noteq> []" "ObjectId 30 \<noteq> ObjectId 31"
    "set (map v_candidate (votes countedElection)) = {ObjectId 30, ObjectId 31}"
    "count_list (map v_candidate (votes countedElection)) (ObjectId 30) = 5"
    "count_list (map v_candidate (votes countedElection)) (ObjectId 31) = 3"
    by (auto simp add: sample_defs)
  from calculateResults_tally[of countedElection 150 _ _
      "[rollVote ''R1'' 31, rollVote ''R2'' 31, rollVote ''R3'' 31]" "ObjectId 30" "ObjectId 31",
      THEN mp, OF c] v
  show ?thesis using c by simp
qed

text \<open>
  Claim C2. The claim fails on the code for the anonymous ledger. \<open>submitPublicVote\<close> takes
  the roll number from the body as it comes, and \<open>hasVoted\<close> compares it with the stored
  texts by \<open>===\<close>. A JSON body with the roll number 123, a number, passes the check every
  time and is stored as the text 123 every time: after two such submissions the anonymous
  ledger of election 40, which requires the roll number, holds two entries for 123. Sent
  as texts, as in \<open>fourSubmissions\<close>, the second submission of a roll number is refused, and
  so is the second vote of a student.
\<close>

theorem duplicate_roll_number_entries:
  "pa_requireRollNumber election40 \<and>
   Elections (serveAll castObjectId college twoNumberSubmissions) =
     [election40\<lparr>anonymousVotes := [rollVote ''123'' 30, rollVote ''123'' 30]\<rparr>] \<and>
   count_list (map av_rollNumber [rollVote ''123'' 30, rollVote ''123'' 30]) ''123'' = 2 \<and>
   Elections (serveAll castObjectId college fourSubmissions) =
     [election40\<lparr>votes := [ballot 20 30], anonymousVotes := [rollVote ''R1'' 30]\<rparr>]"
  by (simp add: sample_defs twoNumberSubmissions_def fourSubmissions_def rollVote_def op_defs)

text \<open>
  Claim C3. If every election that the request can address (by its id for \<open>castVote\<close>, by
  its access token for \<open>submitPublicVote\<close>) has \<open>now\<close> before its start, or \<open>now\<close> after its
  end, or a stored status other than active, then the request is refused and the database,
  with both ledgers of every election, is what it was, whatever the submitted values and
  the cast of the driver.
\<close>

theorem votes_rejected_when_closed:
  "((\<forall>e \<in> set (Elections d). e_id e = i \<longrightarrow>
        now < startDate e \<or> now > endDate e \<or> status e \<noteq> Active) \<longrightarrow>
      (\<exists>err. castVote d studentId i candidateId now = Inl err) \<and>
      serve cast d (CastVote studentId i candidateId now) = d) \<and>
   ((\<forall>e \<in> set (Elections d). qr_accessToken e = Some token \<longrightarrow>
        now < startDate e \<or> now > endDate e \<or> status e \<noteq> Active) \<longrightarrow>
      (\<exists>err. submitPublicVote cast d token cid rollNumber clientIP userAgent now = Inl err) \<and>
      serve cast d (SubmitPublicVote token cid rollNumber clientIP userAgent now) = d)"
proof -
  have a: "\<exists>err. castVote d studentId i candidateId now = Inl err"
    if h: "\<forall>e \<in> set (Elections d). e_id e = i \<longrightarrow>
        now < startDate e \<or> now > endDate e \<or> status e \<noteq> Active"
  proof (cases "castVote d studentId i candidateId now")
    case (Inl err) then show ?thesis by blast
  next
    case (Inr d')
    from castVote_InrD[OF Inr] obtain cls :: classDoc and election :: election where
      f: "find (\<lambda>e. e_id e = i \<and> e_class e = c_id cls \<and> status e = Active) (Elections d)
            = Some election" and w: "startDate election \<le> now" "now \<le> endDate election"
      by auto
    from find_SomeD[OF f] h w have False by auto
    then show ?thesis ..
  qed
  have b: "\<exists>err. submitPublicVote cast d token cid rollNumber clientIP userAgent now = Inl err"
    if h: "\<forall>e \<in> set (Elections d). qr_accessToken e = Some token \<longrightarrow>
        now < startDate e \<or> now > endDate e \<or> status e \<noteq> Active"
  proof (cases "submitPublicVote cast d token cid rollNumber clientIP userAgent now")
    case (Inl err) then show ?thesis by blast
  next
    case (Inr d')
    from submitPublicVote_InrD[OF Inr] obtain election :: election where
      f: "find (\<lambda>e. qr_accessToken e = Some token \<and> qr_isEnabled e) (Elections d) = Some election"
      and w: "isVotingAllowed election now"
      by auto
    from w have "startDate election \<le> now \<and> now \<le> endDate election \<and> status election = Active"
      by (auto simp: isVotingAllowed_def isActive_def split: if_splits)
    with find_SomeD[OF f] h have False by auto
    then show ?thesis ..
  qed
  from a b show ?thesis by (auto simp: serve_def outcome_def)
qed

text \<open>
  Claim C3, in the college at time 50, before election 40 opens at 100.
\<close>

theorem votes_rejected_when_closed_witness:
  "Elections college = [election40] \<and> e_id election40 = ObjectId 40 \<and>
   qr_accessToken election40 = Some ''c0ffee'' \<and> 50 < startDate election40 \<and>
   castVote college (ObjectId 20) (ObjectId 40) (ObjectId 30) 50
     = Inl ElectionNotCurrentlyActive \<and>
   serve castObjectId college (CastVote (ObjectId 20) (ObjectId 40) (ObjectId 30) 50) = college \<and>
   submitPublicVote castObjectId college ''c0ffee'' (idText 30) (JString ''R1'') ''10.0.0.7''
       ''browser'' 50
     = Inl VotingNotAvailable \<and>
   serve castObjectId college
     (SubmitPublicVote ''c0ffee'' (idText 30) (JString ''R1'') ''10.0.0.7'' ''browser'' 50)
     = college"
  using votes_rejected_when_closed[of college "ObjectId 40" 50 "ObjectId 20" "ObjectId 30"
      castObjectId "''c0ffee''" "idText 30" "JString ''R1''" "''10.0.0.7''" "''browser''"]
  by (simp add: sample_defs op_defs)

text \<open>
  Claim C4. The query of \<open>createElection\<close> and the inclusive overlap test disagree on an
  election that the controllers themselves store. \<open>createElection\<close> stores a pending
  election of class 1 from 100 to 200. \<open>updateElection\<close> with a new start date 300 and no
  end date compares the start with the clock only and stores the election from 300 to
  200. For the new window 250 to 400 the query matches that election (its start lies in
  the window) while the inclusive test \<open>newStart \<le> existingEnd\<close> fails, and \<open>createElection\<close>
  refuses the request. The sibling checks keep a start before its end: \<open>createElection\<close>
  refuses the window 300 to 200, and \<open>updateElection\<close> refuses a new end date that is not
  after the start.
\<close>

theorem createElection_overlap_after_moved_start:
  "createElection (college\<lparr>Elections := []\<rparr>) (ObjectId 10) (createFor 1 100 200) 50 (ObjectId 41)
     = Inr (college\<lparr>Elections :=
              [newElection (ObjectId 41) (createFor 1 100 200) (ObjectId 1) 100 200 (ObjectId 10)]\<rparr>) \<and>
   updateElection
       (college\<lparr>Elections :=
          [newElection (ObjectId 41) (createFor 1 100 200) (ObjectId 1) 100 200 (ObjectId 10)]\<rparr>)
       (ObjectId 10) (ObjectId 41) (noRequest\<lparr>ur_startDate := Some (Date 300)\<rparr>) 60
     = Inr (withElection movedElection) \<and>
   startDate movedElection = 300 \<and> endDate movedElection = 200 \<and>
   status movedElection = Pending \<and> e_class movedElection = ObjectId 1 \<and>
   overlapQuery 250 400 movedElection \<and>
   \<not> (250 \<le> endDate movedElection \<and> 400 \<ge> startDate movedElection) \<and>
   createElection (withElection movedElection) (ObjectId 10) (createFor 1 250 400) 70 (ObjectId 42)
     = Inl OverlappingElection \<and>
   createElection (college\<lparr>Elections := []\<rparr>) (ObjectId 10) (createFor 1 300 200) 50 (ObjectId 41)
     = Inl EndDateNotAfterStart \<and>
   updateElection
       (college\<lparr>Elections :=
          [newElection (ObjectId 41) (createFor 1 100 200) (ObjectId 1) 100 200 (ObjectId 10)]\<rparr>)
       (ObjectId 10) (ObjectId 41) (noRequest\<lparr>ur_endDate := Some (Date 90)\<rparr>) 60
     = Inl EndDateNotAfterStart"
  by (simp add: sample_defs movedElection_def op_defs teacher_defs)

text \<open>
  Claim C5, as amended. Let the election at position \<open>k\<close> of the collection be completed
  or cancelled. Then \<open>updateElection\<close> and \<open>publishResults\<close>, with any arguments, leave the
  collection at its length and that election at its status, and so does \<open>castVote\<close> when
  the ids of the collection are distinct; \<open>calculateResults\<close> leaves the status of a
  completed election, and of a cancelled election without authenticated votes, as it is.
  The admin's \<open>updateElectionStatus\<close> is not bound by the lifecycle: for an election that
  exists and a status name of the enumeration, the stored status is the requested one,
  whatever it was before.
\<close>

theorem terminal_status_kept:
  "(k < length (Elections d) \<and>
   (status (Elections d ! k) = Completed \<or> status (Elections d ! k) = Cancelled) \<longrightarrow>
     (length (Elections (outcome d (updateElection d t i req now))) = length (Elections d) \<and>
      status (Elections (outcome d (updateElection d t i req now)) ! k)
        = status (Elections d ! k)) \<and>
     (length (Elections (outcome d (publishResults d t i now))) = length (Elections d) \<and>
      status (Elections (outcome d (publishResults d t i now)) ! k)
        = status (Elections d ! k)) \<and>
     (distinct (map e_id (Elections d)) \<longrightarrow>
      length (Elections (outcome d (castVote d s i c now))) = length (Elections d) \<and>
      status (Elections (outcome d (castVote d s i c now)) ! k)
        = status (Elections d ! k)) \<and>
     (status (Elections d ! k) = Completed \<or> votes (Elections d ! k) = [] \<longrightarrow>
      status (fst (calculateResults (Elections d ! k) now)) = status (Elections d ! k))) \<and>
   (findById i (Elections d) = Some e \<and> parseStatus st = Some st' \<longrightarrow>
      (\<exists>e'. findById i (Elections (outcome d (updateElectionStatus d i st now))) = Some e' \<and>
            status e' = st'))"
proof (rule conjI, rule impI)
  assume h: "k < length (Elections d) \<and>
   (status (Elections d ! k) = Completed \<or> status (Elections d ! k) = Cancelled)"
  then have k: "k < length (Elections d)" and t: "terminal (status (Elections d ! k))"
    by (simp_all add: terminal_def)
  have gen: "length (Elections (outcome d r)) = length (Elections d) \<and>
      status (Elections (outcome d r) ! k) = status (Elections d ! k)"
    if "\<And>d'. r = Inr d' \<Longrightarrow> \<exists>e e'. findById i (Elections d) = Some e \<and> e_id e' = i \<and>
           Elections d' = save e' (Elections d) \<and> (terminal (status e) \<longrightarrow> status e' = status e)"
    for r
  proof (cases r)
    case (Inl err) then show ?thesis by (simp add: outcome_def)
  next
    case (Inr d')
    from that[OF Inr] obtain e :: election and e' :: election where
      "findById i (Elections d) = Some e" "e_id e' = i"
      "Elections d' = save e' (Elections d)" "terminal (status e) \<Longrightarrow> status e' = status e"
      by auto
    with save_keeps_terminal[of i "Elections d" e e' k] k t Inr show ?thesis
      by (simp add: outcome_def)
  qed
  have 1: "length (Elections (outcome d (updateElection d t i req now))) = length (Elections d) \<and>
      status (Elections (outcome d (updateElection d t i req now)) ! k)
        = status (Elections d ! k)"
    by (rule gen) (rule updateElection_terminal)
  have 2: "length (Elections (outcome d (publishResults d t i now))) = length (Elections d) \<and>
      status (Elections (outcome d (publishResults d t i now)) ! k)
        = status (Elections d ! k)"
    by (rule gen) (rule publishResults_terminal)
  have 3: "length (Elections (outcome d (castVote d s i c now))) = length (Elections d) \<and>
      status (Elections (outcome d (castVote d s i c now)) ! k)
        = status (Elections d ! k)" if "distinct (map e_id (Elections d))"
    by (rule gen) (rule castVote_terminal[OF that])
  have 4: "status (Elections d ! k) = Completed \<or> votes (Elections d ! k) = [] \<longrightarrow>
      status (fst (calculateResults (Elections d ! k) now)) = status (Elections d ! k)"
    using calculateResults_completed[of "Elections d ! k" now]
      calculateResults_empty[of "Elections d ! k" now] by auto
  from 1 2 3 4 show "(length (Elections (outcome d (updateElection d t i req now))) = length (Elections d) \<and>
      status (Elections (outcome d (updateElection d t i req now)) ! k)
        = status (Elections d ! k)) \<and>
     (length (Elections (outcome d (publishResults d t i now))) = length (Elections d) \<and>
      status (Elections (outcome d (publishResults d t i now)) ! k)
        = status (Elections d ! k)) \<and>
     (distinct (map e_id (Elections d)) \<longrightarrow>
      length (Elections (outcome d (castVote d s i c now))) = length (Elections d) \<and>
      status (Elections (outcome d (castVote d s i c now)) ! k)
        = status (Elections d ! k)) \<and>
     (status (Elections d ! k) = Completed \<or> votes (Elections d ! k) = [] \<longrightarrow>
      status (fst (calculateResults (Elections d ! k) now)) = status (Elections d ! k))"
    by blast
next
  show "findById i (Elections d) = Some e \<and> parseStatus st = Some st' \<longrightarrow>
      (\<exists>e'. findById i (Elections (outcome d (updateElectionStatus d i st now))) = Some e' \<and>
            status e' = st')"
    using updateElectionStatus_stores[of i d e st st' now] by blast
qed

text \<open>
  Claim C5, at a completed election with eight votes: a teacher's update that asks for
  completed, one that asks for cancelled, a publication of the results and a vote all
  leave it completed; the admin's request for pending makes it pending.
\<close>

theorem terminal_status_kept_witness:
  "0 < length (Elections (withElection (countedElection\<lparr>status := Completed\<rparr>))) \<and>
   status (Elections (withElection (countedElection\<lparr>status := Completed\<rparr>)) ! 0) = Completed \<and>
   distinct (map e_id (Elections (withElection (countedElection\<lparr>status := Completed\<rparr>)))) \<and>
   map status (Elections (outcome (withElection (countedElection\<lparr>status := Completed\<rparr>))
      (updateElection (withElection (countedElection\<lparr>status := Completed\<rparr>)) (ObjectId 10)
         (ObjectId 40) (noRequest\<lparr>ur_title := [0x43, 0x52, 0x20, 0x31], ur_status := ''completed''\<rparr>) 250)))
     = [Completed] \<and>
   map status (Elections (outcome (withElection (countedElection\<lparr>status := Completed\<rparr>))
      (updateElection (withElection (countedElection\<lparr>status := Completed\<rparr>)) (ObjectId 10)
         (ObjectId 40) (noRequest\<lparr>ur_status := ''cancelled''\<rparr>) 250)))
     = [Completed] \<and>
   map status (Elections (outcome (withElection (countedElection\<lparr>status := Completed\<rparr>))
      (publishResults (withElection (countedElection\<lparr>status := Completed\<rparr>)) (ObjectId 10)
         (ObjectId 40) 250)))
     = [Completed] \<and>
   map status (Elections (outcome (withElection (countedElection\<lparr>status := Completed\<rparr>))
      (castVote (withElection (countedElection\<lparr>status := Completed\<rparr>)) (ObjectId 28)
         (ObjectId 40) (ObjectId 30) 150)))
     = [Completed] \<and>
   status (fst (calculateResults (countedElection\<lparr>status := Completed\<rparr>) 250)) = Completed \<and>
   findById (ObjectId 40) (Elections (withElection (countedElection\<lparr>status := Completed\<rparr>)))
     = Some (countedElection\<lparr>status := Completed\<rparr>) \<and>
   parseStatus ''pending'' = Some Pending \<and>
   map status (Elections (outcome (withElection (countedElection\<lparr>status := Completed\<rparr>))
      (updateElectionStatus (withElection (countedElection\<lparr>status := Completed\<rparr>))
         (ObjectId 40) ''pending'' 250)))
     = [Pending]"
  using terminal_status_kept[of 0 "withElection (countedElection\<lparr>status := Completed\<rparr>)"
      "ObjectId 10" "ObjectId 40" "noRequest\<lparr>ur_title := [0x43, 0x52, 0x20, 0x31], ur_status := ''completed''\<rparr>"
      250 "ObjectId 28" "ObjectId 30" "countedElection\<lparr>status := Completed\<rparr>" "''pending''"
      Pending]
  by (simp add: sample_defs op_defs teacher_defs)

text \<open>
  Claim C5 as stated fails for the admin controller: \<open>updateElectionStatus\<close> stores any of
  the four statuses without looking at the current one, so a completed election becomes
  pending again. The method \<open>calculateResults\<close>, taken alone, also turns a cancelled
  election that has votes into a completed one.
\<close>

theorem terminal_status_counterexample:
  "status (Elections (withElection (countedElection\<lparr>status := Completed\<rparr>)) ! 0) = Completed \<and>
   updateElectionStatus (withElection (countedElection\<lparr>status := Completed\<rparr>))
       (ObjectId 40) ''pending'' 250
     = Inr (withElection (countedElection\<lparr>status := Pending\<rparr>)) \<and>
   status (countedElection\<lparr>status := Cancelled\<rparr>) = Cancelled \<and>
   status (fst (calculateResults (countedElection\<lparr>status := Cancelled\<rparr>) 250)) = Completed"
  by (simp add: sample_defs op_defs teacher_defs)

text \<open>
  Claim C6. Let the ids of the collection be distinct, and let \<open>e\<close> be the only election
  with the access token \<open>token\<close>, enabled. A teacher or admin toggling the access of \<open>e\<close>
  stores \<open>e\<close> with \<open>isEnabled\<close> false and every other field, the token included, unchanged.
  After that every vote submitted with the token and a candidate id is refused as an
  invalid or disabled link, whatever the candidate, the roll number, the time and the
  cast of the driver, and no submission with the token is accepted. Toggling once more
  gives back the database from before the first toggle, with the same token, hence the
  same answers to every request.
\<close>

theorem toggleQRAccess_link_inert:
  "distinct (map e_id (Elections d)) \<and> e \<in> set (Elections d) \<and>
   qr_accessToken e = Some token \<and> qr_isEnabled e \<and>
   (\<forall>x \<in> set (Elections d). qr_accessToken x = Some token \<longrightarrow> x = e) \<and>
   (role = ''teacher'' \<or> role = ''admin'') \<longrightarrow>
     (\<exists>d1. toggleQRAccess d (Some role) (e_id e) = Inr d1 \<and>
        findById (e_id e) (Elections d1) = Some (e\<lparr>qr_isEnabled := False\<rparr>) \<and>
        (\<forall>cast candidateId rollNumber clientIP userAgent now.
           truthy candidateId \<longrightarrow>
           submitPublicVote cast d1 token candidateId rollNumber clientIP userAgent now
             = Inl InvalidOrExpiredLink) \<and>
        (\<forall>cast candidateId rollNumber clientIP userAgent now.
           \<exists>err. submitPublicVote cast d1 token candidateId rollNumber clientIP userAgent now
             = Inl err) \<and>
        toggleQRAccess d1 (Some role) (e_id e) = Inr d)"
proof
  assume h: "distinct (map e_id (Elections d)) \<and> e \<in> set (Elections d) \<and>
   qr_accessToken e = Some token \<and> qr_isEnabled e \<and>
   (\<forall>x \<in> set (Elections d). qr_accessToken x = Some token \<longrightarrow> x = e) \<and>
   (role = ''teacher'' \<or> role = ''admin'')"
  let ?e' = "e\<lparr>qr_isEnabled := False\<rparr>"
  let ?d1 = "d\<lparr>Elections := save ?e' (Elections d)\<rparr>"
  from h have f: "findById (e_id e) (Elections d) = Some e" by (simp add: findById_distinct)
  have 1: "toggleQRAccess d (Some role) (e_id e) = Inr ?d1"
    using h f by (auto simp: toggleQRAccess_def)
  have 2: "findById (e_id e) (Elections ?d1) = Some ?e'"
    using findById_save[OF f, of ?e'] by simp
  have n: "find (\<lambda>x. qr_accessToken x = Some token \<and> qr_isEnabled x) (Elections ?d1) = None"
  proof (rule find_NoneI)
    fix x assume "x \<in> set (Elections ?d1)"
    then have "x \<in> set (save ?e' (Elections d))" by simp
    from save_other[OF _ _ _ this, of e] h have "x = ?e' \<or> (x \<in> set (Elections d) \<and> x \<noteq> e)"
      by simp
    then show "\<not> (qr_accessToken x = Some token \<and> qr_isEnabled x)" using h by auto
  qed
  have 3: "submitPublicVote cast ?d1 token candidateId rollNumber clientIP userAgent now
             = Inl InvalidOrExpiredLink" if "truthy candidateId"
    for cast candidateId rollNumber clientIP userAgent now
    using n that by (simp add: submitPublicVote_def)
  have 4: "\<exists>err. submitPublicVote cast ?d1 token candidateId rollNumber clientIP userAgent now
             = Inl err" for cast candidateId rollNumber clientIP userAgent now
    using n by (simp add: submitPublicVote_def)
  have "save (?e'\<lparr>qr_isEnabled := \<not> qr_isEnabled ?e'\<rparr>) (save ?e' (Elections d)) = Elections d"
  proof -
    have "?e'\<lparr>qr_isEnabled := \<not> qr_isEnabled ?e'\<rparr> = e" using h by simp
    then show ?thesis using save_save[of ?e' e "Elections d"] save_same[OF f] by simp
  qed
  then have 5: "toggleQRAccess ?d1 (Some role) (e_id e) = Inr d"
    using h 2 by (auto simp: toggleQRAccess_def)
  from 1 2 3 4 5 show "\<exists>d1. toggleQRAccess d (Some role) (e_id e) = Inr d1 \<and>
        findById (e_id e) (Elections d1) = Some (e\<lparr>qr_isEnabled := False\<rparr>) \<and>
        (\<forall>cast candidateId rollNumber clientIP userAgent now.
           truthy candidateId \<longrightarrow>
           submitPublicVote cast d1 token candidateId rollNumber clientIP userAgent now
             = Inl InvalidOrExpiredLink) \<and>
        (\<forall>cast candidateId rollNumber clientIP userAgent now.
           \<exists>err. submitPublicVote cast d1 token candidateId rollNumber clientIP userAgent now
             = Inl err) \<and>
        toggleQRAccess d1 (Some role) (e_id e) = Inr d"
    by blast
qed

text \<open>
  Claim C6, in the college with the token of election 40: the vote of roll number R1 for
  candidate 30 is accepted before the toggle, refused as an invalid link after it, and
  the second toggle restores the college.
\<close>

theorem toggleQRAccess_link_inert_witness:
  "distinct (map e_id (Elections college)) \<and> election40 \<in> set (Elections college) \<and>
   qr_accessToken election40 = Some ''c0ffee'' \<and> qr_isEnabled election40 \<and>
   Elections college = [election40] \<and>
   submitPublicVote castObjectId college ''c0ffee'' (idText 30) (JString ''R1'') ''10.0.0.7''
       ''browser'' 150
     = Inr (withElection (election40\<lparr>anonymousVotes := [rollVote ''R1'' 30]\<rparr>)) \<and>
   toggleQRAccess college (Some ''teacher'') (ObjectId 40)
     = Inr (withElection (election40\<lparr>qr_isEnabled := False\<rparr>)) \<and>
   qr_accessToken (election40\<lparr>qr_isEnabled := False\<rparr>) = Some ''c0ffee'' \<and>
   submitPublicVote castObjectId (withElection (election40\<lparr>qr_isEnabled := False\<rparr>)) ''c0ffee''
       (idText 30) (JString ''R1'') ''10.0.0.7'' ''browser'' 150
     = Inl InvalidOrExpiredLink \<and>
   toggleQRAccess (withElection (election40\<lparr>qr_isEnabled := False\<rparr>)) (Some ''teacher'')
       (ObjectId 40) = Inr college \<and>
   (\<exists>d1. toggleQRAccess college (Some ''teacher'') (e_id election40) = Inr d1 \<and>
        findById (e_id election40) (Elections d1) = Some (election40\<lparr>qr_isEnabled := False\<rparr>) \<and>
        (\<forall>cast candidateId rollNumber clientIP userAgent now.
           truthy candidateId \<longrightarrow>
           submitPublicVote cast d1 ''c0ffee'' candidateId rollNumber clientIP userAgent now
             = Inl InvalidOrExpiredLink) \<and>
        (\<forall>cast candidateId rollNumber clientIP userAgent now.
           \<exists>err. submitPublicVote cast d1 ''c0ffee'' candidateId rollNumber clientIP userAgent now
             = Inl err) \<and>
        toggleQRAccess d1 (Some ''teacher'') (e_id election40) = Inr college)"
proof -
  have h: "distinct (map e_id (Elections college)) \<and> election40 \<in> set (Elections college) \<and>
   qr_accessToken election40 = Some ''c0ffee'' \<and> qr_isEnabled election40 \<and>
   (\<forall>x \<in> set (Elections college). qr_accessToken x = Some ''c0ffee'' \<longrightarrow> x = election40) \<and>
   (''teacher'' = ''teacher'' \<or> ''teacher'' = ''admin'')"
    by (simp add: sample_defs)
  have e: "submitPublicVote castObjectId college ''c0ffee'' (idText 30) (JString ''R1'') ''10.0.0.7''
       ''browser'' 150
     = Inr (withElection (election40\<lparr>anonymousVotes := [rollVote ''R1'' 30]\<rparr>))"
   "toggleQRAccess college (Some ''teacher'') (ObjectId 40)
     = Inr (withElection (election40\<lparr>qr_isEnabled := False\<rparr>))"
   "submitPublicVote castObjectId (withElection (election40\<lparr>qr_isEnabled := False\<rparr>)) ''c0ffee''
       (idText 30) (JString ''R1'') ''10.0.0.7'' ''browser'' 150
     = Inl InvalidOrExpiredLink"
   "toggleQRAccess (withElection (election40\<lparr>qr_isEnabled := False\<rparr>)) (Some ''teacher'')
       (ObjectId 40) = Inr college"
    by (simp_all add: sample_defs rollVote_def op_defs teacher_defs)
  from toggleQRAccess_link_inert[of college election40 "''c0ffee''" "''teacher''", THEN mp, OF h]
    h e show ?thesis by (simp add: college_def election40_def)
qed

text \<open>
  Claim C7. The check of \<open>createElection\<close> is \<open>start < now\<close>, so a request whose start
  date equals the clock reading is accepted: with \<open>now = 100\<close> the election from 100 to
  200 is stored. The message of the check says that the start date must be in the future,
  and \<open>updateElection\<close> refuses a new start date equal to the clock reading.
\<close>

theorem createElection_accepts_start_now:
  "cr_startDate (createFor 2 100 200) = Some (Date 100) \<and>
   createElection college (ObjectId 10) (createFor 2 100 200) 100 (ObjectId 41) =
     Inr (college\<lparr>Elections := Elections college @
            [newElection (ObjectId 41) (createFor 2 100 200) (ObjectId 2) 100 200 (ObjectId 10)]\<rparr>) \<and>
   updateElection (withElection (election40\<lparr>status := Pending\<rparr>)) (ObjectId 10) (ObjectId 40)
       (noRequest\<lparr>ur_startDate := Some (Date 60)\<rparr>) 60
     = Inl StartDateNotFuture"
  by (simp add: sample_defs op_defs teacher_defs)

text \<open>
  Claim C8, as amended. \<open>removeCandidate\<close> refuses the request, and changes nothing, when
  the election is active or completed. When the election is pending or cancelled, the
  teacher has the permission and the submitted text casts to the id of a candidate of the
  election, it deletes that candidate and removes from the election the references that
  print as the submitted text; when the text is the id as the server prints it, the
  reference of the candidate is among them.
\<close>

theorem removeCandidate_status_gate:
  "(findById i (Elections d) = Some e \<and> (status e = Active \<or> status e = Completed) \<longrightarrow>
      (\<exists>err. removeCandidate cast d t i candidateId = Inl err) \<and>
      outcome d (removeCandidate cast d t i candidateId) = d) \<and>
   (findById i (Elections d) = Some e \<and> (status e = Pending \<or> status e = Cancelled) \<and>
    hasPermission d e t \<and> cast (JString candidateId) = Some c \<and>
    find (\<lambda>k. cand_id k = c \<and> cand_election k = i) (Candidates d) = Some cand \<longrightarrow>
      removeCandidate cast d t i candidateId =
        Inr (d\<lparr>Elections :=
                 save (e\<lparr>candidates :=
                         filter (\<lambda>k. oidToString k \<noteq> candidateId) (candidates e)\<rparr>)
                      (Elections d),
               Candidates := remove1 cand (Candidates d)\<rparr>) \<and>
      (candidateId = oidToString c \<longrightarrow>
         c \<notin> set (filter (\<lambda>k. oidToString k \<noteq> candidateId) (candidates e))))"
  by (auto simp: removeCandidate_def outcome_def)

text \<open>
  Claim C8, in the college: candidate 30 cannot be removed from the active election 40 and
  is removed from it when it is pending. Submitted in upper case, the id casts to the same
  candidate, which is deleted while its reference stays in the election.
\<close>

theorem removeCandidate_status_gate_witness:
  "findById (ObjectId 40) (Elections college) = Some election40 \<and>
   (status election40 = Active \<or> status election40 = Completed) \<and>
   removeCandidate castObjectId college (ObjectId 10) (ObjectId 40) (oidToString (ObjectId 30))
     = Inl CandidacyLocked \<and>
   findById (ObjectId 40) (Elections (withElection (election40\<lparr>status := Pending\<rparr>)))
     = Some (election40\<lparr>status := Pending\<rparr>) \<and>
   hasPermission (withElection (election40\<lparr>status := Pending\<rparr>))
     (election40\<lparr>status := Pending\<rparr>) (ObjectId 10) \<and>
   castObjectId (JString (oidToString (ObjectId 30))) = Some (ObjectId 30) \<and>
   find (\<lambda>k. cand_id k = ObjectId 30 \<and> cand_election k = ObjectId 40)
     (Candidates (withElection (election40\<lparr>status := Pending\<rparr>))) = Some candidateA \<and>
   removeCandidate castObjectId (withElection (election40\<lparr>status := Pending\<rparr>)) (ObjectId 10)
       (ObjectId 40) (oidToString (ObjectId 30))
     = Inr (college\<lparr>Elections := [election40\<lparr>status := Pending, candidates := [ObjectId 31]\<rparr>],
                    Candidates := [candidateB]\<rparr>) \<and>
   castObjectId (JString ''00000000000000000000001E'') = Some (ObjectId 30) \<and>
   removeCandidate castObjectId (withElection (election40\<lparr>status := Pending\<rparr>)) (ObjectId 10)
       (ObjectId 40) ''00000000000000000000001E''
     = Inr (college\<lparr>Elections := [election40\<lparr>status := Pending\<rparr>],
                    Candidates := [candidateB]\<rparr>)"
  using removeCandidate_status_gate[of "ObjectId 40" college election40 castObjectId "ObjectId 10"
      "oidToString (ObjectId 30)" "ObjectId 30" candidateA]
    removeCandidate_status_gate[of "ObjectId 40" "withElection (election40\<lparr>status := Pending\<rparr>)"
      "election40\<lparr>status := Pending\<rparr>" castObjectId "ObjectId 10" "oidToString (ObjectId 30)"
      "ObjectId 30" candidateA]
    removeCandidate_status_gate[of "ObjectId 40" "withElection (election40\<lparr>status := Pending\<rparr>)"
      "election40\<lparr>status := Pending\<rparr>" castObjectId "ObjectId 10"
      "''00000000000000000000001E''" "ObjectId 30" candidateA]
  by (simp add: sample_defs op_defs teacher_defs)

text \<open>
  Claim C8 as stated fails for a cancelled election: the status check names active and
  completed only, and the candidate is removed.
\<close>

theorem removeCandidate_status_gate_counterexample:
  "status (election40\<lparr>status := Cancelled\<rparr>) \<noteq> Pending \<and>
   removeCandidate castObjectId (withElection (election40\<lparr>status := Cancelled\<rparr>)) (ObjectId 10)
       (ObjectId 40) (oidToString (ObjectId 30))
     = Inr (college\<lparr>Elections := [election40\<lparr>status := Cancelled, candidates := [ObjectId 31]\<rparr>],
                    Candidates := [candidateB]\<rparr>) \<and>
   candidates election40 = [ObjectId 30, ObjectId 31]"
  by (simp add: sample_defs op_defs teacher_defs)

text \<open>
  Claim C9. Let \<open>castVote\<close> find the student, the class and the active election, and let the
  anonymous ledger of the election hold an entry with the student's roll number while the
  authenticated ledger holds none for the student. Then \<open>castVote\<close> does not answer that
  the student has already voted, and, when the time is within the window and the
  candidate is an approved, active candidate of the election, it appends the vote to the
  authenticated ledger.
\<close>

theorem castVote_checks_authenticated_ledger_only:
  "(find (\<lambda>u. u_id u = s) (Users d) = Some student \<and>
    populateClass d student = Some cls \<and>
    find (\<lambda>e. e_id e = i \<and> e_class e = c_id cls \<and> status e = Active) (Elections d)
      = Some election \<and>
    u_rollNumber student \<in> av_rollNumber ` set (anonymousVotes election) \<and>
    s \<notin> v_student ` set (votes election) \<longrightarrow>
      castVote d s i c now \<noteq> Inl AlreadyVoted \<and>
      (startDate election \<le> now \<and> now \<le> endDate election \<and>
       find (\<lambda>k. cand_id k = c \<and> cand_election k = i \<and> approved k \<and> cand_active k)
         (Candidates d) = Some cand \<longrightarrow>
         castVote d s i c now =
           Inr (d\<lparr>Elections := save
                  (election\<lparr>votes := votes election @
                     [\<lparr>v_student = s, v_candidate = c, v_timestamp = now\<rparr>]\<rparr>)
                  (Elections d)\<rparr>)))"
  by (auto simp: castVote_def hasVoted_def list_ex_iff split: option.splits)

text \<open>
  Claim C9, in the college: roll number R1 has voted through the link, and student 20,
  whose roll number it is, votes again as a logged-in student.
\<close>

theorem castVote_checks_authenticated_ledger_only_witness:
  "find (\<lambda>u. u_id u = ObjectId 20)
        (Users (withElection (election40\<lparr>anonymousVotes := [rollVote ''R1'' 31]\<rparr>)))
     = Some alice \<and>
   populateClass (withElection (election40\<lparr>anonymousVotes := [rollVote ''R1'' 31]\<rparr>)) alice
     = Some classOne \<and>
   find (\<lambda>e. e_id e = ObjectId 40 \<and> e_class e = c_id classOne \<and> status e = Active)
        (Elections (withElection (election40\<lparr>anonymousVotes := [rollVote ''R1'' 31]\<rparr>)))
     = Some (election40\<lparr>anonymousVotes := [rollVote ''R1'' 31]\<rparr>) \<and>
   u_rollNumber alice \<in> av_rollNumber ` set [rollVote ''R1'' 31] \<and>
   castVote (withElection (election40\<lparr>anonymousVotes := [rollVote ''R1'' 31]\<rparr>))
       (ObjectId 20) (ObjectId 40) (ObjectId 30) 150
     = Inr (withElection (election40\<lparr>anonymousVotes := [rollVote ''R1'' 31],
                                      votes := [ballot 20 30]\<rparr>))"
  using castVote_checks_authenticated_ledger_only[of "ObjectId 20"
      "withElection (election40\<lparr>anonymousVotes := [rollVote ''R1'' 31]\<rparr>)" alice classOne
      "ObjectId 40" "election40\<lparr>anonymousVotes := [rollVote ''R1'' 31]\<rparr>" "ObjectId 30" 150
      candidateA]
  by (simp add: sample_defs rollVote_def op_defs)

text \<open>
  Claim C10. On an election without authenticated votes \<open>calculateResults\<close> returns the
  election as it was, a total of zero, an empty tally and no winner. Hence, when
  \<open>updateElection\<close> is asked to complete an active election without votes, the election
  stored after the request, accepted or refused, is still active, still without votes,
  and its winner, published flag and publication date are what they were.
\<close>

theorem zero_vote_election_stays_active:
  "(votes e = [] \<longrightarrow>
      calculateResults e now =
        (e, \<lparr>totalVotes = 0, voteCounts = [], winnerId = None, maxVotes = 0\<rparr>)) \<and>
   (findById i (Elections d) = Some e \<and> status e = Active \<and> votes e = [] \<and>
    ur_status req = ''completed'' \<longrightarrow>
      (\<exists>e'. findById i (Elections (outcome d (updateElection d t i req now))) = Some e' \<and>
            status e' = Active \<and> votes e' = [] \<and> res_winner e' = res_winner e \<and>
            res_published e' = res_published e \<and>
            res_publishedAt e' = res_publishedAt e))"
proof (intro conjI impI)
  assume "votes e = []"
  then show "calculateResults e now =
        (e, \<lparr>totalVotes = 0, voteCounts = [], winnerId = None, maxVotes = 0\<rparr>)"
    by (rule calculateResults_empty)
next
  assume h: "findById i (Elections d) = Some e \<and> status e = Active \<and> votes e = [] \<and>
    ur_status req = ''completed''"
  show "\<exists>e'. findById i (Elections (outcome d (updateElection d t i req now))) = Some e' \<and>
            status e' = Active \<and> votes e' = [] \<and> res_winner e' = res_winner e \<and>
            res_published e' = res_published e \<and>
            res_publishedAt e' = res_publishedAt e"
  proof (cases "updateElection d t i req now")
    case (Inl err)
    with h show ?thesis by (simp add: outcome_def)
  next
    case (Inr d')
    let ?e2 = "(if ur_description req \<noteq> [] then (\<lambda>x. x\<lparr>description := ur_description req\<rparr>) else (\<lambda>x. x))
         (if ur_title req \<noteq> [] then e\<lparr>title := trim (ur_title req)\<rparr> else e)"
    from updateElection_InrD[OF Inr] h obtain e3 :: election where
      u: "updateDates ?e2 req now = Inr e3"
      and d': "d' = d\<lparr>Elections := save (updateStatus e3 (ur_status req) now) (Elections d)\<rparr>"
      by auto
    have s2: "status ?e2 = Active" "votes ?e2 = []" "e_id ?e2 = e_id e"
      "res_winner ?e2 = res_winner e" "res_published ?e2 = res_published e"
      "res_publishedAt ?e2 = res_publishedAt e" using h by auto
    from s2(1) have "updateDates ?e2 req now = Inr ?e2" by (intro updateDates_not_pending) simp
    with u have e3: "e3 = ?e2" by simp
    have "updateStatus e3 (ur_status req) now = e3"
      using h s2(1,2) e3 by (simp add: updateStatus_def calculateResults_empty)
    with d' have "Elections d' = save e3 (Elections d)" by simp
    moreover have "e_id e3 = i" using e3 s2(3) findById_id h by auto
    ultimately have "findById i (Elections d') = Some e3" using findById_save h by auto
    with e3 s2 Inr show ?thesis by (auto simp: outcome_def)
  qed
qed

text \<open>
  Claim C10, in the college: election 40 is active and has no votes; the request to
  complete it is accepted and the database is what it was.
\<close>

theorem zero_vote_election_stays_active_witness:
  "votes election40 = [] \<and> status election40 = Active \<and>
   findById (ObjectId 40) (Elections college) = Some election40 \<and>
   calculateResults election40 150 =
     (election40, \<lparr>totalVotes = 0, voteCounts = [], winnerId = None, maxVotes = 0\<rparr>) \<and>
   updateElection college (ObjectId 10) (ObjectId 40)
       (noRequest\<lparr>ur_status := ''completed''\<rparr>) 150 = Inr college"
  using zero_vote_election_stays_active[of election40 150 "ObjectId 40" college
      "noRequest\<lparr>ur_status := ''completed''\<rparr>" "ObjectId 10"]
  by (simp add: sample_defs op_defs updateElection_def hasPermission_def updateDates_def
      updateStatus_def validates_def trim_def isSpace_def calculateResults_def countVotes_def
      findWinner_def)

end
